theory Spec2Isabelle
  imports Main "HOL-Library.Sublist"
begin

section \<open>Python text and numbers\<close>

text \<open>
  A Python \<open>str\<close> is a sequence of Unicode code points, and \<open>len\<close>, slicing and
  \<open>in\<close> count code points. Text is therefore a list of code points; \<open>lit\<close> embeds an
  ASCII literal, and the non-ASCII literals of the source are written out by code point.
\<close>

type_synonym pystr = "nat list"

definition lit :: "string \<Rightarrow> pystr" where
  "lit s = map of_char s"

text \<open>\<open>str(n)\<close> of an integer: its decimal digits, with a minus sign when negative.\<close>

function str_nat :: "nat \<Rightarrow> pystr" where
  "str_nat n = (if n < 10 then [48 + n] else str_nat (n div 10) @ [48 + n mod 10])"
  by pat_completeness auto
termination
  by (relation "measure id") auto

declare str_nat.simps [simp del]

definition str_int :: "int \<Rightarrow> pystr" where
  "str_int i = (if i < 0 then 45 # str_nat (nat (- i)) else str_nat (nat i))"

subsection \<open>The float arithmetic of the progress percentage\<close>

text \<open>
  \<open>int((completed_count / total_count) * 100)\<close> is float arithmetic: \<open>/\<close> on two ints
  is the correctly rounded binary64 quotient, \<open>* 100\<close> rounds the product to binary64
  again, and \<open>int\<close> truncates. A finite non-negative binary64 value is the pair
  \<open>(m, s)\<close> denoting \<open>m / 2 ^ s\<close> (\<open>m * 2 ^ (- s)\<close> for negative \<open>s\<close>). Zero is
  \<open>(0, 0)\<close>; every other value has its 53-bit mantissa \<open>2 ^ 52 \<le> m < 2 ^ 53\<close>, so that
  a value has one representation. Rounding is to nearest, ties to even; a mantissa that
  rounds up to \<open>2 ^ 53\<close> is renormalised. The exponent range of binary64 is not
  modelled: it is only reached by counts beyond \<open>2 ^ 1000\<close>.
\<close>

type_synonym pyfloat = "int \<times> int"

function bit_length :: "int \<Rightarrow> nat" where
  "bit_length n = (if n \<le> 0 then 0 else Suc (bit_length (n div 2)))"
  by pat_completeness auto
termination
  by (relation "measure nat") auto

declare bit_length.simps [simp del]

definition round_binary64 :: "int \<Rightarrow> int \<Rightarrow> pyfloat" where
  "round_binary64 a b =
     (if a = 0 then (0, 0)
      else
        let s0 = 53 - (int (bit_length a) - int (bit_length b));
            s = (if 2 ^ 53 * (b * 2 ^ nat (- s0)) \<le> a * 2 ^ nat s0 then s0 - 1 else s0);
            num = a * 2 ^ nat s;
            den = b * 2 ^ nat (- s);
            q = num div den;
            r = num mod den;
            m = (if 2 * r < den \<or> (2 * r = den \<and> even q) then q else q + 1)
        in if m = 2 ^ 53 then (2 ^ 52, s - 1) else (m, s))"

definition true_div :: "nat \<Rightarrow> nat \<Rightarrow> pyfloat" where
  "true_div c t = round_binary64 (int c) (int t)"

definition float_mul :: "pyfloat \<Rightarrow> int \<Rightarrow> pyfloat" where
  "float_mul x k =
     (case x of (m, s) \<Rightarrow>
        if 0 \<le> s then round_binary64 (m * k) (2 ^ nat s)
        else round_binary64 (m * k * 2 ^ nat (- s)) 1)"

definition float_to_int :: "pyfloat \<Rightarrow> int" where
  "float_to_int x =
     (case x of (m, s) \<Rightarrow>
        if 0 \<le> s then m div 2 ^ nat s else m * 2 ^ nat (- s))"

definition percent_of :: "nat \<Rightarrow> nat \<Rightarrow> int" where
  "percent_of completed_count total_count =
     float_to_int (float_mul (true_div completed_count total_count) 100)"

section \<open>The task list engine (\<open>todo_system.py\<close>)\<close>

text \<open>
  A task is a Python dict. The records built by \<open>add\<close> carry every key; the records
  built by \<open>update_all\<close> carry only \<open>id\<close>, \<open>content\<close>, \<open>status\<close> and \<open>priority\<close>.
  A key that may be absent is an \<open>option\<close> field (\<open>None\<close>: the key is not in the dict);
  \<open>started_at\<close> and \<open>completed_at\<close> may also hold Python's \<open>None\<close>, the inner option.
\<close>

record subtask =
  st_id :: pystr
  st_content :: pystr
  st_completed :: bool

record log_entry =
  le_timestamp :: pystr
  le_action :: pystr
  le_description :: pystr

record todo =
  t_id :: int
  t_content :: pystr
  t_status :: pystr
  t_priority :: pystr
  t_progress :: "int option"
  t_activeForm :: "pystr option"
  t_subtasks :: "subtask list option"
  t_created_at :: "pystr option"
  t_started_at :: "pystr option option"
  t_completed_at :: "pystr option option"
  t_execution_log :: "log_entry list option"

record todo_data =
  d_content :: "pystr option"
  d_status :: "pystr option"
  d_priority :: "pystr option"

text \<open>
  An operation either returns a value or raises \<open>KeyError\<close> (with the missing key).
  The list is mutated in place, so what was written before the raise stays written:
  every operation returns the list it leaves behind next to its outcome.
\<close>

datatype 'a outcome = Returned 'a | KeyError pystr

definition PENDING :: pystr where "PENDING = lit ''pending''"
definition IN_PROGRESS :: pystr where "IN_PROGRESS = lit ''in_progress''"
definition COMPLETED :: pystr where "COMPLETED = lit ''completed''"
definition MEDIUM :: pystr where "MEDIUM = lit ''medium''"

text \<open>\<open>for todo in self.todos: if todo["id"] == id\<close>: the first task with the id.\<close>

fun find_todo :: "todo list \<Rightarrow> int \<Rightarrow> todo option" where
  "find_todo [] i = None"
| "find_todo (t # ts) i = (if t_id t = i then Some t else find_todo ts i)"

text \<open>Mutating that first task in place.\<close>

fun update_first :: "int \<Rightarrow> (todo \<Rightarrow> todo) \<Rightarrow> todo list \<Rightarrow> todo list" where
  "update_first i f [] = []"
| "update_first i f (t # ts) = (if t_id t = i then f t # ts else t # update_first i f ts)"

definition add :: "todo list \<Rightarrow> pystr \<Rightarrow> pystr \<Rightarrow> pystr \<Rightarrow> todo \<times> todo list" where
  "add todos content priority now =
     (let todo = \<lparr> t_id = int (length todos) + 1,
                    t_content = content,
                    t_status = PENDING,
                    t_priority = priority,
                    t_progress = Some 0,
                    t_activeForm = Some ([27491, 22312] @ content),
                    t_subtasks = Some [],
                    t_created_at = Some now,
                    t_started_at = Some None,
                    t_completed_at = Some None,
                    t_execution_log = Some [] \<rparr>
      in (todo, todos @ [todo]))"

definition modify :: "todo list \<Rightarrow> int \<Rightarrow> pystr \<Rightarrow> pystr \<Rightarrow> todo option \<times> todo list" where
  "modify todos i content priority =
     (case find_todo todos i of
        None \<Rightarrow> (None, todos)
      | Some t \<Rightarrow>
          let todos' = update_first i (\<lambda>t. t\<lparr>t_content := content, t_priority := priority\<rparr>) todos
          in (find_todo todos' i, todos'))"

text \<open>\<open>self.todos.remove(todo)\<close> removes the first element equal to \<open>todo\<close>.\<close>

definition delete :: "todo list \<Rightarrow> int \<Rightarrow> todo option \<times> todo list" where
  "delete todos i =
     (case find_todo todos i of
        None \<Rightarrow> (None, todos)
      | Some t \<Rightarrow> (Some t, remove1 t todos))"

text \<open>
  \<open>update_all\<close> clears the list and appends one record per input; \<open>todo_data["content"]\<close>
  raises when the key is missing, leaving the records appended so far.
\<close>

fun update_all_loop :: "int \<Rightarrow> todo_data list \<Rightarrow> todo list \<Rightarrow> todo list outcome \<times> todo list" where
  "update_all_loop i [] todos = (Returned todos, todos)"
| "update_all_loop i (d # ds) todos =
     (case d_content d of
        None \<Rightarrow> (KeyError (lit ''content''), todos)
      | Some c \<Rightarrow>
          update_all_loop (i + 1) ds
            (todos @ [\<lparr> t_id = i,
                         t_content = c,
                         t_status = (case d_status d of None \<Rightarrow> PENDING | Some s \<Rightarrow> s),
                         t_priority = (case d_priority d of None \<Rightarrow> MEDIUM | Some p \<Rightarrow> p),
                         t_progress = None,
                         t_activeForm = None,
                         t_subtasks = None,
                         t_created_at = None,
                         t_started_at = None,
                         t_completed_at = None,
                         t_execution_log = None \<rparr>]))"

definition update_all :: "todo list \<Rightarrow> todo_data list \<Rightarrow> todo list outcome \<times> todo list" where
  "update_all todos todos_data = update_all_loop 1 todos_data []"

definition get_all :: "todo list \<Rightarrow> todo list" where
  "get_all todos = todos"

definition update_status :: "todo list \<Rightarrow> int \<Rightarrow> pystr \<Rightarrow> todo option \<times> todo list" where
  "update_status todos i status =
     (case find_todo todos i of
        None \<Rightarrow> (None, todos)
      | Some t \<Rightarrow>
          let todos' = update_first i (\<lambda>t. t\<lparr>t_status := status\<rparr>) todos
          in (find_todo todos' i, todos'))"

definition get_by_status :: "todo list \<Rightarrow> pystr \<Rightarrow> todo list" where
  "get_by_status todos status = filter (\<lambda>t. t_status t = status) todos"

definition get_active_todos :: "todo list \<Rightarrow> todo list" where
  "get_active_todos todos = filter (\<lambda>t. t_status t = IN_PROGRESS) todos"

definition get_pending_todos :: "todo list \<Rightarrow> todo list" where
  "get_pending_todos todos = filter (\<lambda>t. t_status t = PENDING) todos"

definition log_execution ::
  "todo list \<Rightarrow> int \<Rightarrow> pystr \<Rightarrow> pystr \<Rightarrow> pystr \<Rightarrow> bool outcome \<times> todo list" where
  "log_execution todos todo_id action description now =
     (case find_todo todos todo_id of
        None \<Rightarrow> (Returned False, todos)
      | Some t \<Rightarrow>
          (case t_execution_log t of
             None \<Rightarrow> (KeyError (lit ''execution_log''), todos)
           | Some l \<Rightarrow>
               (Returned True,
                update_first todo_id
                  (\<lambda>t. t\<lparr>t_execution_log := Some (l @
                      [\<lparr> le_timestamp = now, le_action = action,
                         le_description = description \<rparr>])\<rparr>) todos)))"

text \<open>
  The clock is read once for the timestamp a method stores and once more inside
  \<open>log_execution\<close>; each reading is an argument of its own.
\<close>

definition start_todo ::
  "todo list \<Rightarrow> int \<Rightarrow> pystr \<Rightarrow> pystr \<Rightarrow> todo option outcome \<times> todo list" where
  "start_todo todos todo_id now_start now_log =
     (if filter (\<lambda>t. t_status t = IN_PROGRESS) todos \<noteq> [] then (Returned None, todos)
      else
        case find_todo todos todo_id of
          None \<Rightarrow> (Returned None, todos)
        | Some t \<Rightarrow>
            let todos1 = update_first todo_id
                  (\<lambda>t. t\<lparr>t_status := IN_PROGRESS, t_started_at := Some (Some now_start)\<rparr>) todos
            in (case log_execution todos1 todo_id (lit ''started'')
                       ([24320, 22987, 25191, 34892, 20219, 21153, 58, 32] @ t_content t) now_log of
                  (KeyError k, todos2) \<Rightarrow> (KeyError k, todos2)
                | (Returned _, todos2) \<Rightarrow> (Returned (find_todo todos2 todo_id), todos2)))"

definition make_subtasks :: "int \<Rightarrow> pystr list \<Rightarrow> subtask list" where
  "make_subtasks todo_id subtasks_list =
     map (\<lambda>(i, c). \<lparr> st_id = str_int todo_id @ lit ''-'' @ str_nat i,
                      st_content = c, st_completed = False \<rparr>)
       (zip [1 ..< Suc (length subtasks_list)] subtasks_list)"

definition break_down_task ::
  "todo list \<Rightarrow> int \<Rightarrow> pystr list \<Rightarrow> pystr \<Rightarrow> todo option outcome \<times> todo list" where
  "break_down_task todos todo_id subtasks_list now_log =
     (case find_todo todos todo_id of
        None \<Rightarrow> (Returned None, todos)
      | Some t \<Rightarrow>
          let subtasks = make_subtasks todo_id subtasks_list;
              todos1 = update_first todo_id (\<lambda>t. t\<lparr>t_subtasks := Some subtasks\<rparr>) todos
          in (case log_execution todos1 todo_id (lit ''breakdown'')
                     ([20219, 21153, 20998, 35299, 20026] @ str_nat (length subtasks)
                        @ [20010, 23376, 20219, 21153]) now_log of
                (KeyError k, todos2) \<Rightarrow> (KeyError k, todos2)
              | (Returned _, todos2) \<Rightarrow> (Returned (find_todo todos2 todo_id), todos2)))"

definition complete_todo ::
  "todo list \<Rightarrow> int \<Rightarrow> pystr \<Rightarrow> pystr \<Rightarrow> todo option outcome \<times> todo list" where
  "complete_todo todos todo_id now_done now_log =
     (case find_todo todos todo_id of
        None \<Rightarrow> (Returned None, todos)
      | Some t \<Rightarrow>
          let todos1 = update_first todo_id
                (\<lambda>t. t\<lparr>t_status := COMPLETED, t_progress := Some 100,
                        t_completed_at := Some (Some now_done)\<rparr>) todos
          in (case log_execution todos1 todo_id (lit ''completed'')
                     ([20219, 21153, 23436, 25104, 58, 32] @ t_content t) now_log of
                (KeyError k, todos2) \<Rightarrow> (KeyError k, todos2)
              | (Returned _, todos2) \<Rightarrow> (Returned (find_todo todos2 todo_id), todos2)))"

definition update_progress ::
  "todo list \<Rightarrow> int \<Rightarrow> int \<Rightarrow> pystr \<Rightarrow> pystr \<Rightarrow> pystr \<Rightarrow> todo option outcome \<times> todo list" where
  "update_progress todos todo_id progress now_log now_done now_log2 =
     (case find_todo todos todo_id of
        None \<Rightarrow> (Returned None, todos)
      | Some t \<Rightarrow>
          (case t_progress t of
             None \<Rightarrow> (KeyError (lit ''progress''), todos)
           | Some old_progress \<Rightarrow>
               let todos1 = update_first todo_id
                     (\<lambda>t. t\<lparr>t_progress := Some (max 0 (min 100 progress))\<rparr>) todos
               in (case log_execution todos1 todo_id (lit ''progress'')
                          ([36827, 24230, 26356, 26032, 58, 32] @ str_int old_progress
                             @ lit ''% -> '' @ str_int progress @ lit ''%'') now_log of
                     (KeyError k, todos2) \<Rightarrow> (KeyError k, todos2)
                   | (Returned _, todos2) \<Rightarrow>
                       if 100 \<le> progress then
                         (case complete_todo todos2 todo_id now_done now_log2 of
                            (KeyError k, todos3) \<Rightarrow> (KeyError k, todos3)
                          | (Returned _, todos3) \<Rightarrow> (Returned (find_todo todos3 todo_id), todos3))
                       else (Returned (find_todo todos2 todo_id), todos2))))"

text \<open>
  \<open>complete_subtask\<close> walks the tasks with the requested id in order and stops at the
  first one that holds the subtask: a task with the id that does not hold it is passed
  over, and reading \<open>todo["subtasks"]\<close> raises when the key is absent. The task found
  is \<open>todo\<close> in the source; \<open>log_execution\<close> and \<open>complete_todo\<close> look the id up again
  and so act on the first task with that id.
\<close>

fun find_subtask :: "subtask list \<Rightarrow> pystr \<Rightarrow> subtask option" where
  "find_subtask [] sid = None"
| "find_subtask (st # sts) sid = (if st_id st = sid then Some st else find_subtask sts sid)"

fun mark_completed :: "pystr \<Rightarrow> subtask list \<Rightarrow> subtask list" where
  "mark_completed sid [] = []"
| "mark_completed sid (st # sts) =
     (if st_id st = sid then st\<lparr>st_completed := True\<rparr> # sts else st # mark_completed sid sts)"

datatype subtask_scan = NoSuchSubtask | SubtasksMissing | FoundAt nat "subtask list" subtask

fun scan_subtask :: "todo list \<Rightarrow> int \<Rightarrow> pystr \<Rightarrow> nat \<Rightarrow> subtask_scan" where
  "scan_subtask [] todo_id sid k = NoSuchSubtask"
| "scan_subtask (t # ts) todo_id sid k =
     (if t_id t = todo_id then
        (case t_subtasks t of
           None \<Rightarrow> SubtasksMissing
         | Some sts \<Rightarrow>
             (case find_subtask sts sid of
                Some st \<Rightarrow> FoundAt k sts st
              | None \<Rightarrow> scan_subtask ts todo_id sid (Suc k)))
      else scan_subtask ts todo_id sid (Suc k))"

fun update_at :: "nat \<Rightarrow> (todo \<Rightarrow> todo) \<Rightarrow> todo list \<Rightarrow> todo list" where
  "update_at k f [] = []"
| "update_at 0 f (t # ts) = f t # ts"
| "update_at (Suc k) f (t # ts) = t # update_at k f ts"

fun todo_at :: "todo list \<Rightarrow> nat \<Rightarrow> todo option" where
  "todo_at [] k = None"
| "todo_at (t # ts) 0 = Some t"
| "todo_at (t # ts) (Suc k) = todo_at ts k"

definition complete_subtask ::
  "todo list \<Rightarrow> int \<Rightarrow> pystr \<Rightarrow> pystr \<Rightarrow> pystr \<Rightarrow> pystr \<Rightarrow> todo option outcome \<times> todo list" where
  "complete_subtask todos todo_id subtask_id now_log now_done now_log2 =
     (case scan_subtask todos todo_id subtask_id 0 of
        NoSuchSubtask \<Rightarrow> (Returned None, todos)
      | SubtasksMissing \<Rightarrow> (KeyError (lit ''subtasks''), todos)
      | FoundAt k sts st \<Rightarrow>
          let subtasks = mark_completed subtask_id sts;
              todos1 = update_at k (\<lambda>t. t\<lparr>t_subtasks := Some subtasks\<rparr>) todos
          in (case log_execution todos1 todo_id (lit ''subtask_completed'')
                     ([23436, 25104, 23376, 20219, 21153, 58, 32] @ st_content st) now_log of
                (KeyError k', todos2) \<Rightarrow> (KeyError k', todos2)
              | (Returned _, todos2) \<Rightarrow>
                  let completed_count = length (filter st_completed subtasks);
                      total_count = length subtasks
                  in if 0 < total_count then
                       let todos3 = update_at k
                             (\<lambda>t. t\<lparr>t_progress := Some (percent_of completed_count total_count)\<rparr>)
                             todos2
                       in if completed_count = total_count then
                            (case complete_todo todos3 todo_id now_done now_log2 of
                               (KeyError k', todos4) \<Rightarrow> (KeyError k', todos4)
                             | (Returned _, todos4) \<Rightarrow> (Returned (todo_at todos4 k), todos4))
                          else (Returned (todo_at todos3 k), todos3)
                     else (Returned (todo_at todos2 k), todos2)))"

subsection \<open>The engine's operations as one step function\<close>

text \<open>
  Every method of \<open>TodoList\<close> that can write to the list, with its arguments and the
  clock readings it takes; \<open>run_op\<close> is the list the call leaves behind, whether it
  returned or raised.
\<close>

datatype engine_op =
    OpAdd pystr pystr pystr
  | OpModify int pystr pystr
  | OpDelete int
  | OpUpdateAll "todo_data list"
  | OpUpdateStatus int pystr
  | OpStartTodo int pystr pystr
  | OpBreakDownTask int "pystr list" pystr
  | OpUpdateProgress int int pystr pystr pystr
  | OpCompleteSubtask int pystr pystr pystr pystr
  | OpCompleteTodo int pystr pystr
  | OpLogExecution int pystr pystr pystr

fun run_op :: "engine_op \<Rightarrow> todo list \<Rightarrow> todo list" where
  "run_op (OpAdd c p now) todos = snd (add todos c p now)"
| "run_op (OpModify i c p) todos = snd (modify todos i c p)"
| "run_op (OpDelete i) todos = snd (delete todos i)"
| "run_op (OpUpdateAll ds) todos = snd (update_all todos ds)"
| "run_op (OpUpdateStatus i s) todos = snd (update_status todos i s)"
| "run_op (OpStartTodo i n1 n2) todos = snd (start_todo todos i n1 n2)"
| "run_op (OpBreakDownTask i cs n) todos = snd (break_down_task todos i cs n)"
| "run_op (OpUpdateProgress i v n1 n2 n3) todos = snd (update_progress todos i v n1 n2 n3)"
| "run_op (OpCompleteSubtask i sid n1 n2 n3) todos = snd (complete_subtask todos i sid n1 n2 n3)"
| "run_op (OpCompleteTodo i n1 n2) todos = snd (complete_todo todos i n1 n2)"
| "run_op (OpLogExecution i a d n) todos = snd (log_execution todos i a d n)"

text \<open>The single-active-task invariant: at most one task is \<open>in_progress\<close>.\<close>

definition single_active :: "todo list \<Rightarrow> bool" where
  "single_active todos = (length (get_active_todos todos) \<le> 1)"

text \<open>
  The two writes that take a status from the caller without looking at the other tasks:
  \<open>update_status\<close> asked to write \<open>in_progress\<close>, and \<open>update_all\<close> given more than one
  record whose status is \<open>in_progress\<close>.
\<close>

fun unchecked_status_write :: "engine_op \<Rightarrow> bool" where
  "unchecked_status_write (OpUpdateStatus i s) = (s = IN_PROGRESS)"
| "unchecked_status_write (OpUpdateAll ds) =
     (1 < length (filter (\<lambda>d. d_status d = Some IN_PROGRESS) ds))"
| "unchecked_status_write _ = False"

subsection \<open>Notions used to state the engine's properties\<close>

text \<open>The number of tasks whose status is \<open>in_progress\<close>.\<close>

definition active_count :: "todo list \<Rightarrow> nat" where
  "active_count todos = length (filter (\<lambda>t. t_status t = IN_PROGRESS) todos)"

text \<open>
  The record \<open>start_todo\<close> leaves behind for a task \<open>t\<close> whose execution log was \<open>l\<close>:
  status \<open>in_progress\<close>, the start timestamp, and one more log entry tagged \<open>started\<close>.
\<close>

definition started :: "pystr \<Rightarrow> pystr \<Rightarrow> log_entry list \<Rightarrow> todo \<Rightarrow> todo" where
  "started now_start now_log l t =
     t\<lparr> t_status := IN_PROGRESS,
        t_started_at := Some (Some now_start),
        t_execution_log := Some (l @
          [\<lparr> le_timestamp = now_log, le_action = lit ''started'',
             le_description = [24320, 22987, 25191, 34892, 20219, 21153, 58, 32] @ t_content t \<rparr>]) \<rparr>"

text \<open>Example lists: two tasks added to an empty list, and the same after starting task 1.\<close>

definition demo_first :: todo where
  "demo_first = fst (add [] (lit ''a'') MEDIUM (lit ''t0''))"

definition demo_two :: "todo list" where
  "demo_two = snd (add (snd (add [] (lit ''a'') MEDIUM (lit ''t0''))) (lit ''b'') MEDIUM (lit ''t1''))"

definition demo_started :: "todo list" where
  "demo_started = snd (start_todo demo_two 1 (lit ''t2'') (lit ''t3''))"

text \<open>The position of the first task with a given id (the length of the list when none has it).\<close>

fun first_index :: "int \<Rightarrow> todo list \<Rightarrow> nat" where
  "first_index i [] = 0"
| "first_index i (t # ts) = (if t_id t = i then 0 else Suc (first_index i ts))"

text \<open>The two-task list after deleting task 1, and after one more \<open>add\<close>.\<close>

definition demo_after_delete :: "todo list" where
  "demo_after_delete = snd (delete demo_two 1)"

definition demo_readded :: "todo list" where
  "demo_readded = snd (add demo_after_delete (lit ''c'') MEDIUM (lit ''t2''))"


text \<open>
  One task broken down into \<open>n\<close> subtasks, and \<open>complete_subtask\<close> called for the
  subtasks numbered \<open>ks\<close>, in that order.
\<close>

definition demo_broken_down :: "nat \<Rightarrow> todo list" where
  "demo_broken_down n =
     snd (break_down_task (snd (add [] (lit ''a'') MEDIUM (lit ''t0''))) 1
            (replicate n (lit ''s'')) (lit ''t1''))"

fun complete_each :: "todo list \<Rightarrow> int \<Rightarrow> nat list \<Rightarrow> todo list" where
  "complete_each todos i [] = todos"
| "complete_each todos i (k # ks) =
     complete_each
       (snd (complete_subtask todos i (str_int i @ lit ''-'' @ str_nat k)
               (lit ''t2'') (lit ''t3'') (lit ''t4''))) i ks"

text \<open>The subtask list with its first \<open>n\<close> entries marked completed.\<close>

fun complete_first :: "nat \<Rightarrow> subtask list \<Rightarrow> subtask list" where
  "complete_first 0 sts = sts"
| "complete_first (Suc n) [] = []"
| "complete_first (Suc n) (st # sts) = st\<lparr>st_completed := True\<rparr> # complete_first n sts"

text \<open>Reading a decimal numeral back, the inverse of \<open>str_nat\<close>.\<close>

definition nat_of_digits :: "pystr \<Rightarrow> nat" where
  "nat_of_digits ds = foldl (\<lambda>a d. 10 * a + (d - 48)) 0 ds"

text \<open>
  What holds of the broken-down task once its first \<open>n\<close> of \<open>total_count\<close> subtasks have been
  completed through \<open>complete_subtask\<close>.
\<close>

definition completed_upto :: "nat \<Rightarrow> nat \<Rightarrow> todo list \<Rightarrow> bool" where
  "completed_upto total_count n todos =
     (\<exists>t l. todos = [t] \<and> t_id t = 1 \<and>
        t_subtasks t = Some (complete_first n (make_subtasks 1 (replicate total_count (lit ''s'')))) \<and>
        t_execution_log t = Some l \<and>
        (0 < n \<and> n < total_count \<longrightarrow> t_progress t = Some (percent_of n total_count)) \<and>
        (0 < n \<and> n = total_count \<longrightarrow>
           t_status t = COMPLETED \<and> t_progress t = Some 100 \<and>
           t_completed_at t = Some (Some (lit ''t3''))))"

text \<open>
  A record as \<open>update_all\<close> builds it: none of the keys \<open>progress\<close>, \<open>activeForm\<close>,
  \<open>subtasks\<close>, \<open>created_at\<close>, \<open>started_at\<close>, \<open>completed_at\<close>, \<open>execution_log\<close>.
\<close>

definition batch_record :: "todo \<Rightarrow> bool" where
  "batch_record t =
     (t_progress t = None \<and> t_activeForm t = None \<and> t_subtasks t = None \<and>
      t_created_at t = None \<and> t_started_at t = None \<and> t_completed_at t = None \<and>
      t_execution_log t = None)"

text \<open>Two one-record batches: one whose task is \<open>in_progress\<close>, one whose task is pending.\<close>

definition demo_batch_active :: "todo list" where
  "demo_batch_active =
     snd (update_all []
            [\<lparr> d_content = Some (lit ''a''), d_status = Some IN_PROGRESS, d_priority = None \<rparr>])"

definition demo_batch_idle :: "todo list" where
  "demo_batch_idle =
     snd (update_all []
            [\<lparr> d_content = Some (lit ''a''), d_status = None, d_priority = None \<rparr>])"

text \<open>The two-task list after \<open>update_progress(1, 150)\<close>.\<close>

definition demo_progress_150 :: "todo list" where
  "demo_progress_150 =
     snd (update_progress demo_two 1 150 (lit ''t2'') (lit ''t3'') (lit ''t4''))"

section \<open>The stream function detector (\<open>core/chat_handler.py\<close>)\<close>

text \<open>
  \<open>s.find(sub)\<close>: the index of the first occurrence, \<open>None\<close> for Python's \<open>-1\<close>;
  \<open>sub in s\<close> holds when there is one.
\<close>

fun py_find :: "pystr \<Rightarrow> pystr \<Rightarrow> nat option" where
  "py_find sub [] = (if sub = [] then Some 0 else None)"
| "py_find sub (c # cs) =
     (if take (length sub) (c # cs) = sub then Some 0 else map_option Suc (py_find sub cs))"

definition py_in :: "pystr \<Rightarrow> pystr \<Rightarrow> bool" where
  "py_in sub s = (py_find sub s \<noteq> None)"

definition OPEN_TAG :: pystr where "OPEN_TAG = lit ''<function_calls>''"
definition CLOSE_TAG :: pystr where "CLOSE_TAG = lit ''</function_calls>''"

text \<open>The hint shown once in place of the hidden block: a newline, a wrench sign and a short text.\<close>

definition FUNCTION_HINT :: pystr where
  "FUNCTION_HINT = [10, 128295, 32, 25191, 34892, 20013, 46, 46, 46]"

text \<open>
  \<open>re.search(r'<function_calls>(.*?)</function_calls>', buffer, re.DOTALL)\<close> and
  \<open>match.group(0)\<close>. The search takes the leftmost start: the first opening tag. From
  there the lazy \<open>.*?\<close>, which matches newlines under \<open>DOTALL\<close>, extends to the first
  closing tag that begins at or after the end of the opening tag. When no closing tag
  follows the first opening tag, none follows a later one either, and there is no match.
\<close>

definition search_function_block :: "pystr \<Rightarrow> pystr option" where
  "search_function_block buffer =
     (case py_find OPEN_TAG buffer of
        None \<Rightarrow> None
      | Some p \<Rightarrow>
          let rest = drop (p + length OPEN_TAG) buffer
          in (case py_find CLOSE_TAG rest of
                None \<Rightarrow> None
              | Some q \<Rightarrow> Some (OPEN_TAG @ take q rest @ CLOSE_TAG)))"

record detector =
  buffer :: pystr
  in_function_block :: bool
  start_tag_found :: bool
  clean_content :: pystr
  function_hint_shown :: bool

definition reset :: detector where
  "reset = \<lparr> buffer = [], in_function_block = False, start_tag_found = False,
              clean_content = [], function_hint_shown = False \<rparr>"

text \<open>
  The report of \<open>feed_chunk\<close> is the triple (should stop, extracted function call, clean
  chunk for display); the detector it leaves behind comes with it.
\<close>

type_synonym report = "bool \<times> pystr option \<times> pystr"

text \<open>The last part of \<open>feed_chunk\<close>, reached with the clean chunk computed so far.\<close>

definition check_end_tag :: "detector \<Rightarrow> pystr \<Rightarrow> report \<times> detector" where
  "check_end_tag d clean_chunk =
     (if in_function_block d \<and> py_in CLOSE_TAG (buffer d) then
        (case search_function_block (buffer d) of
           Some function_call \<Rightarrow> ((True, Some function_call, []), d)
         | None \<Rightarrow> ((False, None, clean_chunk), d))
      else ((False, None, clean_chunk), d))"

definition feed_chunk :: "detector \<Rightarrow> pystr \<Rightarrow> report \<times> detector" where
  "feed_chunk d0 chunk =
     (let d = d0\<lparr>buffer := buffer d0 @ chunk\<rparr>
      in if \<not> start_tag_found d then
           if py_in OPEN_TAG (buffer d) then
             let d1 = d\<lparr>start_tag_found := True, in_function_block := True\<rparr>
             in (case py_find OPEN_TAG (buffer d1) of
                   Some tag_start \<Rightarrow>
                     let clean_chunk = (case py_find OPEN_TAG chunk of
                                          Some k \<Rightarrow> take k chunk
                                        | None \<Rightarrow> [])
                     in if \<not> function_hint_shown d1
                        then check_end_tag (d1\<lparr>function_hint_shown := True\<rparr>)
                               (clean_chunk @ FUNCTION_HINT)
                        else check_end_tag d1 clean_chunk
                 | None \<Rightarrow> check_end_tag d1 chunk)
           else
             ((False, None, chunk),
              (if 20 < length (buffer d)
               then d\<lparr>buffer := drop (length (buffer d) - 20) (buffer d)\<rparr>
               else d))
         else check_end_tag d [])"

text \<open>
  Feeding the chunks of a stream in order: the reports, one per chunk, and the detector
  after each chunk.
\<close>

fun feed_all :: "detector \<Rightarrow> pystr list \<Rightarrow> (report \<times> detector) list" where
  "feed_all d [] = []"
| "feed_all d (chunk # chunks) =
     (let r = feed_chunk d chunk in r # feed_all (snd r) chunks)"

text \<open>A stream whose opening tag is split over two chunks, and the block it carries.\<close>

definition demo_chunk1 :: pystr where
  \<open>demo_chunk1 = lit ''hello <func''\<close>

definition demo_chunk2 :: pystr where
  \<open>demo_chunk2 = lit ''tion_calls><invoke''\<close>

definition demo_chunk3 :: pystr where
  \<open>demo_chunk3 = lit '' name="x"></invoke></function_calls> world''\<close>

definition demo_block :: pystr where
  \<open>demo_block = lit ''<function_calls><invoke name="x"></invoke></function_calls>''\<close>

text \<open>A stream without any tag, longer than the detector's window.\<close>

definition demo_plain :: "pystr list" where
  \<open>demo_plain = [lit ''hello, '', lit ''this is plain text, '', lit ''more than twenty characters'']\<close>

section \<open>The function registry (\<open>core/function_registry.py\<close>)\<close>

text \<open>
  A handler is any Python callable. What it returns is a \<open>str\<close> or some other object.
  Running Python code returns a value, or raises an exception of class \<open>Exception\<close>
  whose \<open>str(e)\<close> is the text carried by \<open>Raises\<close>, or raises something that
  \<open>except Exception as e: ... str(e)\<close> does not turn into a value: an exception outside
  \<open>Exception\<close> (\<open>SystemExit\<close>, \<open>KeyboardInterrupt\<close>), or one whose \<open>str(e)\<close> itself
  raises. Calling a handler with keyword arguments it does not take raises \<open>TypeError\<close>
  inside the \<open>try\<close>: that is one of the handler's \<open>Raises\<close> outcomes.
\<close>

datatype 'a pyvalue = Str pystr | Other 'a

datatype 'r attempt = Returns 'r | Raises pystr | RaisesBase

text \<open>
  \<open>str(result)\<close> of a \<open>str\<close> is the string itself; for the other objects it runs their
  \<open>__str__\<close>, the parameter \<open>str_of\<close>, which may raise like any code.
\<close>

definition py_str :: "('a \<Rightarrow> pystr attempt) \<Rightarrow> 'a pyvalue \<Rightarrow> pystr attempt" where
  "py_str str_of v = (case v of Str s \<Rightarrow> Returns s | Other x \<Rightarrow> str_of x)"

record 'k function_result =
  success :: bool
  content :: pystr
  function_name :: pystr
  parameters :: "'k option"
  error :: pystr
  needs_confirmation :: bool

text \<open>The phrase a handler returns to ask for the user's confirmation.\<close>

definition CONFIRM_PHRASE :: pystr where
  "CONFIRM_PHRASE = [38656, 35201, 29992, 25143, 36755, 20837, 89, 30830, 35748]"

text \<open>
  The keyword arguments are the pairs of \<open>**kwargs\<close>. Handlers act on the program's
  state, of type \<open>'s\<close>, which \<open>call\<close> hands through.
\<close>

type_synonym 'v kwargs = "(pystr \<times> 'v) list"

type_synonym ('v, 's, 'a) handler = "'v kwargs \<Rightarrow> 's \<Rightarrow> 'a pyvalue attempt \<times> 's"

text \<open>
  \<open>call(self, name, **kwargs)\<close> returns a \<open>FunctionResult\<close>, or raises \<open>TypeError\<close> while
  its arguments are bound, or lets pass what its \<open>except Exception\<close> does not catch.
\<close>

datatype 'r call_outcome = CallResult 'r | CallTypeError | CallPropagates

text \<open>
  The signature takes \<open>self\<close> and \<open>name\<close> as named parameters: a keyword argument of either
  name is a second value for that parameter, and Python raises \<open>TypeError\<close> before the
  body, its membership test and its \<open>try\<close>, are reached. Inside the \<open>try\<close> are the handler's
  call, the test for the confirmation phrase and \<open>str(result)\<close>.
\<close>

definition call ::
  "('a \<Rightarrow> pystr attempt) \<Rightarrow> (pystr \<rightharpoonup> ('v, 's, 'a) handler) \<Rightarrow> pystr \<Rightarrow> 'v kwargs \<Rightarrow> 's
     \<Rightarrow> 'v kwargs function_result call_outcome \<times> 's" where
  "call str_of functions name kwargs s =
     (if lit ''name'' \<in> set (map fst kwargs) \<or> lit ''self'' \<in> set (map fst kwargs)
      then (CallTypeError, s)
      else
        case functions name of
          None \<Rightarrow>
            (CallResult
               \<lparr> success = False, content = [], function_name = name, parameters = None,
                 error = lit ''Function '' @ [39] @ name @ [39] @ lit '' not found'',
                 needs_confirmation = False \<rparr>, s)
        | Some func \<Rightarrow>
            (case func kwargs s of
               (Returns result, s') \<Rightarrow>
                 let stringified =
                       (case py_str str_of result of
                          Returns text \<Rightarrow>
                            (CallResult
                               \<lparr> success = True, content = text, function_name = name,
                                 parameters = Some kwargs, error = [],
                                 needs_confirmation = False \<rparr>, s')
                        | Raises e \<Rightarrow>
                            (CallResult
                               \<lparr> success = False, content = [], function_name = name,
                                 parameters = Some kwargs, error = e,
                                 needs_confirmation = False \<rparr>, s')
                        | RaisesBase \<Rightarrow> (CallPropagates, s'))
                 in (case result of
                       Str text \<Rightarrow>
                         if py_in CONFIRM_PHRASE text then
                           (CallResult
                              \<lparr> success = False, content = text, function_name = name,
                                parameters = Some kwargs, error = [],
                                needs_confirmation = True \<rparr>, s')
                         else stringified
                     | Other x \<Rightarrow> stringified)
             | (Raises e, s') \<Rightarrow>
                 (CallResult
                    \<lparr> success = False, content = [], function_name = name,
                      parameters = Some kwargs, error = e,
                      needs_confirmation = False \<rparr>, s')
             | (RaisesBase, s') \<Rightarrow> (CallPropagates, s')))"

text \<open>
  A small registry for examples: one handler that returns text, one that returns a
  number and counts its calls in the state, one that asks for confirmation, one that
  raises \<open>ValueError('boom')\<close>, one that calls \<open>sys.exit()\<close>, one that returns \<open>-1\<close>; and
  objects, the integers, whose \<open>__str__\<close> raises on the negative ones.
\<close>

definition demo_functions :: "pystr \<rightharpoonup> (pystr, nat, int) handler" where
  "demo_functions =
     [lit ''greet'' \<mapsto> (\<lambda>_ s. (Returns (Str (lit ''hi'')), s)),
      lit ''count'' \<mapsto> (\<lambda>_ s. (Returns (Other (int s)), Suc s)),
      lit ''send'' \<mapsto> (\<lambda>_ s. (Returns (Str (lit ''send? '' @ CONFIRM_PHRASE)), s)),
      lit ''fail'' \<mapsto> (\<lambda>_ s. (Raises (lit ''boom''), s)),
      lit ''quit'' \<mapsto> (\<lambda>_ s. (RaisesBase, s)),
      lit ''odd'' \<mapsto> (\<lambda>_ s. (Returns (Other (- 1)), s))]"

definition demo_str :: "int \<Rightarrow> pystr attempt" where
  "demo_str x = (if x < 0 then Raises (lit ''no text'') else Returns (str_int x))"

section \<open>The session manager (\<open>core/session_manager.py\<close>)\<close>

text \<open>
  A session file is one JSON document \<open>logs/<date>/<session id>.json\<close>. The files are an
  association list from (date directory, file stem) to the document written last. The
  wall clock is not part of the program: every \<open>datetime.now()\<close> and \<open>time.time()\<close>
  reading is an argument of the call that takes it.
\<close>

record message =
  m_role :: pystr
  m_content :: pystr
  m_timestamp :: pystr

record session_data =
  session_id :: pystr
  created_at :: pystr
  last_activity :: pystr
  messages :: "message list"

text \<open>
  What a file holds: the document written last, or, when \<open>json.dump\<close> failed after
  \<open>open(..., 'w')\<close> had emptied the file, an incomplete text.
\<close>

datatype file_content = Document session_data | Truncated

type_synonym session_files = "((pystr \<times> pystr) \<times> file_content) list"

record session_manager =
  current_session_id :: "pystr option"
  current_context :: "message list"
  last_activity_time :: int
  files :: session_files

text \<open>
  What the disk does when a session file is to be written: the write goes through, or
  \<open>mkdir\<close> of the date directory fails, or \<open>open\<close> fails, or \<open>json.dump\<close> fails after the
  file has been opened. A method returns or is left by the \<open>OSError\<close>.
\<close>

datatype disk = DiskOk | MkdirFails | OpenFails | DumpFails

datatype ending = Finished | RaisedOSError

fun write_file :: "pystr \<times> pystr \<Rightarrow> file_content \<Rightarrow> session_files \<Rightarrow> session_files" where
  "write_file path c [] = [(path, c)]"
| "write_file path c ((p, d) # fs) =
     (if p = path then (path, c) # fs else (p, d) # write_file path c fs)"

definition read_file :: "session_files \<Rightarrow> pystr \<times> pystr \<Rightarrow> file_content option" where
  "read_file fs path = map_of fs path"

text \<open>\<open>f"session_{session_count:03d}"\<close>: the count in decimal, zero-padded to three digits.\<close>

definition format_03d :: "nat \<Rightarrow> pystr" where
  "format_03d n = replicate (3 - length (str_nat n)) 48 @ str_nat n"

text \<open>
  \<open>_generate_session_id\<close>: one more than the number of files \<open>session_*.json\<close> in
  today's directory.
\<close>

definition generate_session_id :: "session_manager \<Rightarrow> pystr \<Rightarrow> pystr" where
  "generate_session_id sm today =
     (let session_files =
            filter (\<lambda>((date, stem), _). date = today \<and> take 8 stem = lit ''session_'') (files sm);
          session_count = length session_files + 1
      in lit ''session_'' @ format_03d session_count)"

text \<open>
  \<open>create_new_session\<close>. \<open>today_id\<close> and \<open>today_path\<close> are the dates read when the id is
  generated and when the file path is built, \<open>now_time\<close> the \<open>time.time()\<close> reading,
  \<open>now_created\<close> and \<open>now_activity\<close> the two \<open>datetime.now().isoformat()\<close> readings.
  Nothing is guarded here. When the \<open>mkdir\<close> inside \<open>_generate_session_id\<close> fails
  (\<open>dir_ok\<close> false) the method is left before any field is set. Later failures leave
  it after the manager's fields have been set; a failed \<open>json.dump\<close> leaves the
  emptied file behind. \<open>None\<close> stands for the method being left by the exception.
\<close>

definition create_new_session ::
  "session_manager \<Rightarrow> pystr \<Rightarrow> bool \<Rightarrow> int \<Rightarrow> pystr \<Rightarrow> pystr \<Rightarrow> pystr \<Rightarrow> disk
     \<Rightarrow> pystr option \<times> session_manager" where
  "create_new_session sm today_id dir_ok now_time now_created now_activity today_path d =
     (if \<not> dir_ok then (None, sm)
      else
        let sid = generate_session_id sm today_id;
            sm1 = sm\<lparr> current_session_id := Some sid, current_context := [],
                       last_activity_time := now_time \<rparr>;
            doc = \<lparr> session_id = sid, created_at = now_created,
                     last_activity = now_activity, messages = [] \<rparr>
        in (case d of
              DiskOk \<Rightarrow>
                (Some sid, sm1\<lparr> files := write_file (today_path, sid) (Document doc) (files sm1) \<rparr>)
            | MkdirFails \<Rightarrow> (None, sm1)
            | OpenFails \<Rightarrow> (None, sm1)
            | DumpFails \<Rightarrow>
                (None, sm1\<lparr> files := write_file (today_path, sid) Truncated (files sm1) \<rparr>)))"

text \<open>
  \<open>save_current_session\<close>. \<open>if not self.current_session_id\<close> holds for \<open>None\<close> and for
  the empty string. The path is built, with its \<open>mkdir\<close>, before the \<open>try\<close>: a failure
  there leaves the method. A failed \<open>open\<close> or \<open>json.dump\<close> is caught and reported; after
  a failed \<open>json.dump\<close> the file is the emptied one.
\<close>

definition save_current_session ::
  "session_manager \<Rightarrow> pystr \<Rightarrow> pystr \<Rightarrow> pystr \<Rightarrow> disk \<Rightarrow> ending \<times> session_manager" where
  "save_current_session sm now_created now_activity today d =
     (case current_session_id sm of
        None \<Rightarrow> (Finished, sm)
      | Some sid \<Rightarrow>
          if sid = [] then (Finished, sm)
          else
            let doc = \<lparr> session_id = sid, created_at = now_created,
                         last_activity = now_activity, messages = current_context sm \<rparr>
            in (case d of
                  DiskOk \<Rightarrow>
                    (Finished, sm\<lparr> files := write_file (today, sid) (Document doc) (files sm) \<rparr>)
                | MkdirFails \<Rightarrow> (RaisedOSError, sm)
                | OpenFails \<Rightarrow> (Finished, sm)
                | DumpFails \<Rightarrow>
                    (Finished, sm\<lparr> files := write_file (today, sid) Truncated (files sm) \<rparr>)))"

definition update_activity :: "session_manager \<Rightarrow> int \<Rightarrow> session_manager" where
  "update_activity sm now_time = sm\<lparr> last_activity_time := now_time \<rparr>"

text \<open>
  \<open>add_message\<close> reads the clock for the message's timestamp, for the activity time, and
  then for the three readings of \<open>save_current_session\<close>, whose exception, if any, leaves
  \<open>add_message\<close> too.
\<close>

definition add_message ::
  "session_manager \<Rightarrow> pystr \<Rightarrow> pystr \<Rightarrow> pystr \<Rightarrow> int \<Rightarrow> pystr \<Rightarrow> pystr \<Rightarrow> pystr \<Rightarrow> disk
     \<Rightarrow> ending \<times> session_manager" where
  "add_message sm role msg now_stamp now_time now_created now_activity today d =
     (let m = \<lparr> m_role = role, m_content = msg, m_timestamp = now_stamp \<rparr>;
          sm1 = sm\<lparr> current_context := current_context sm @ [m] \<rparr>;
          sm2 = update_activity sm1 now_time
      in save_current_session sm2 now_created now_activity today d)"

definition get_current_context :: "session_manager \<Rightarrow> (pystr \<times> pystr) list" where
  "get_current_context sm = map (\<lambda>m. (m_role m, m_content m)) (current_context sm)"

text \<open>A manager with no session and no files, a session created in it, and that session saved five minutes later.\<close>

definition demo_manager :: session_manager where
  "demo_manager = \<lparr> current_session_id = None, current_context = [],
                     last_activity_time = 0, files = [] \<rparr>"

definition demo_created :: session_manager where
  "demo_created =
     snd (create_new_session demo_manager (lit ''2025-08-28'') True 100
            (lit ''2025-08-28T10:00:00'') (lit ''2025-08-28T10:00:00'') (lit ''2025-08-28'')
            DiskOk)"

definition demo_saved :: session_manager where
  "demo_saved =
     snd (save_current_session demo_created
            (lit ''2025-08-28T10:05:00'') (lit ''2025-08-28T10:05:00'') (lit ''2025-08-28'')
            DiskOk)"

section \<open>The conversation turn (\<open>core/chat_handler.py\<close>)\<close>

definition MAX_CONVERSATION_DEPTH :: int where
  "MAX_CONVERSATION_DEPTH = 5"

definition AI_MODEL :: pystr where
  "AI_MODEL = lit ''claude-sonnet-4-20250514''"

text \<open>The text returned at the depth limit.\<close>

definition DEPTH_LIMIT_MESSAGE :: pystr where
  "DEPTH_LIMIT_MESSAGE =
     [38169, 35823, 58, 32, 36798, 21040, 26368, 22823, 23545, 35805, 28145, 24230, 38480, 21046]"

definition UNKNOWN_ERROR :: pystr where
  "UNKNOWN_ERROR = [26410, 30693, 38169, 35823]"

definition format_result_xml :: "pystr \<Rightarrow> bool \<Rightarrow> pystr" where
  "format_result_xml text ok =
     (let tag = (if ok then lit ''success'' else lit ''failed'')
      in lit ''<'' @ tag @ lit ''>'' @ text @ lit ''</'' @ tag @ lit ''>'')"

definition format_results :: "'k function_result list \<Rightarrow> pystr" where
  "format_results results =
     (if results = [] then []
      else lit ''<function_response>'' @
           concat (map (\<lambda>result.
                     if needs_confirmation result then format_result_xml (content result) False
                     else if success result then format_result_xml (content result) True
                     else format_result_xml
                            (if error result \<noteq> [] then error result else UNKNOWN_ERROR) False)
                   results) @
           lit ''</function_response>'')"

text \<open>
  What lies outside the handler is an environment: the model behind the streaming API
  (given the system prompt, the messages and the number of earlier requests, it yields
  the text chunks and, if the stream breaks, the error), the prompt manager's assembled
  system prompt, the registry's manifest and its \<open>parse_and_execute\<close> (which runs handlers
  on their state, and yields the results or \<open>None\<close> when an exception leaves it: \<open>call\<close>
  does not catch everything), the clock, the disk, and whether the caller passed the two
  callbacks.
\<close>

record reading =
  r_iso :: pystr
  r_today :: pystr
  r_time :: int

record ('k, 'h) env =
  stream_model :: "pystr \<Rightarrow> (pystr \<times> pystr) list \<Rightarrow> nat \<Rightarrow> pystr list \<times> pystr option"
  update_system_prompt :: "pystr \<Rightarrow> 'h \<Rightarrow> nat \<Rightarrow> pystr"
  generate_xml :: pystr
  parse_and_execute :: "pystr \<Rightarrow> 'h \<Rightarrow> 'k function_result list option \<times> 'h"
  clock :: "nat \<Rightarrow> reading"
  disk_at :: "nat \<Rightarrow> disk"
  on_text_chunk :: bool
  on_function_call :: bool

text \<open>
  The log manager's entries are kept as events; their wording and the log file are not
  modelled.
\<close>

datatype log_event =
    LogApiCall pystr
  | LogAssistantMessage pystr
  | LogFunctionDetection pystr
  | LogFunctionCall pystr bool pystr

text \<open>
  The state a turn works on: the session manager, the handler's context and detector,
  the requests sent to the model so far, the log, the text shown through
  \<open>on_text_chunk\<close>, the results passed to \<open>on_function_call\<close>, the state of the registered
  handlers, and the number of clock readings taken.
\<close>

record ('k, 'h) world =
  w_session :: session_manager
  w_context :: "(pystr \<times> pystr) list"
  w_detector :: detector
  w_requests :: "(pystr \<times> (pystr \<times> pystr) list) list"
  w_log :: "log_event list"
  w_shown :: "pystr list"
  w_notified :: "'k function_result list list"
  w_handlers :: 'h
  w_tick :: nat

text \<open>
  \<open>session_manager.add_message\<close> with its five clock readings and the disk's answer. The
  exception of a failed \<open>mkdir\<close> passes through.
\<close>

definition session_add_message ::
  "('k, 'h) env \<Rightarrow> ('k, 'h) world \<Rightarrow> pystr \<Rightarrow> pystr \<Rightarrow> ending \<times> ('k, 'h) world" where
  "session_add_message e w role text =
     (let t = w_tick w;
          added = add_message (w_session w) role text
                    (r_iso (clock e t)) (r_time (clock e (t + 1)))
                    (r_iso (clock e (t + 2))) (r_iso (clock e (t + 3)))
                    (r_today (clock e (t + 4))) (disk_at e t)
      in (fst added, w\<lparr> w_session := snd added, w_tick := t + 5 \<rparr>))"

text \<open>
  \<open>add_assistant_message\<close>: the session manager first, then the log; an exception of the
  first leaves the log entry unwritten.
\<close>

definition add_assistant_message ::
  "('k, 'h) env \<Rightarrow> ('k, 'h) world \<Rightarrow> pystr \<Rightarrow> ending \<times> ('k, 'h) world" where
  "add_assistant_message e w text =
     (let stored = session_add_message e w (lit ''assistant'') text;
          w1 = snd stored
      in (case fst stored of
            RaisedOSError \<Rightarrow> (RaisedOSError, w1)
          | Finished \<Rightarrow> (Finished, w1\<lparr> w_log := w_log w1 @ [LogAssistantMessage text] \<rparr>)))"

text \<open>
  The loop of \<open>get_response_stream\<close> over the streamed chunks: it stops at the first
  report that asks to stop and carries a non-empty block, and hands the clean chunks to
  \<open>on_text_chunk\<close> when that callback was passed.
\<close>

fun consume_stream ::
  "bool \<Rightarrow> detector \<Rightarrow> pystr \<Rightarrow> pystr list \<Rightarrow> pystr list
     \<Rightarrow> pystr \<times> bool \<times> detector \<times> pystr list" where
  "consume_stream callback d full_content shown [] = (full_content, False, d, shown)"
| "consume_stream callback d full_content shown (chunk # chunks) =
     (case feed_chunk d chunk of
        ((should_stop, function_call, clean_chunk), d') \<Rightarrow>
          if should_stop \<and> function_call \<noteq> None \<and> function_call \<noteq> Some []
          then (full_content @ chunk, True, d', shown)
          else consume_stream callback d' (full_content @ chunk)
                 (if callback \<and> clean_chunk \<noteq> [] then shown @ [clean_chunk] else shown)
                 chunks)"

text \<open>
  \<open>get_response_stream\<close>: one request to the model. An error of the stream ends the
  loop; what was received until then is returned with \<open>False\<close>.
\<close>

definition get_response_stream ::
  "('k, 'h) env \<Rightarrow> ('k, 'h) world \<Rightarrow> pystr \<Rightarrow> pystr \<times> bool \<times> ('k, 'h) world" where
  "get_response_stream e w system_prompt =
     (let w1 = w\<lparr> w_detector := reset,
                   w_requests := w_requests w @ [(system_prompt, w_context w)] \<rparr>;
          chunks = fst (stream_model e system_prompt (w_context w) (length (w_requests w)))
      in (case consume_stream (on_text_chunk e) (w_detector w1) [] (w_shown w1) chunks of
            (full_content, has_function_calls, d, shown) \<Rightarrow>
              (full_content, has_function_calls, w1\<lparr> w_detector := d, w_shown := shown \<rparr>)))"

text \<open>
  The part of a turn that runs the detected function calls and stores their results. It
  yields whether a result asks for confirmation, or \<open>None\<close> when an exception leaves it:
  from \<open>parse_and_execute\<close>, before anything is logged or stored, or from the session
  manager.
\<close>

definition run_function_calls ::
  "('k, 'h) env \<Rightarrow> ('k, 'h) world \<Rightarrow> pystr \<Rightarrow> bool option \<times> ('k, 'h) world" where
  "run_function_calls e w response_content =
     (let w1 = w\<lparr> w_log := w_log w @ [LogFunctionDetection response_content] \<rparr>;
          executed = parse_and_execute e response_content (w_handlers w1)
      in (case fst executed of
            None \<Rightarrow> (None, w1\<lparr> w_handlers := snd executed \<rparr>)
          | Some results \<Rightarrow>
              let w2 = w1\<lparr> w_handlers := snd executed,
                         w_log := w_log w1 @
                           map (\<lambda>result. LogFunctionCall (function_name result) (success result)
                                  (if success result then content result else error result))
                             results \<rparr>;
                  w3 = (if on_function_call e
                        then w2\<lparr> w_notified := w_notified w2 @ [results] \<rparr> else w2);
                  needs = list_ex needs_confirmation results;
                  stored = session_add_message e w3 (lit ''assistant'') (format_results results)
              in (case fst stored of
                    RaisedOSError \<Rightarrow> (None, snd stored)
                  | Finished \<Rightarrow> (Some needs, snd stored))))"

text \<open>
  \<open>process_conversation_turn\<close> returns a text or is left by an exception. Nothing in it
  catches one.
\<close>

datatype turn_outcome = Reply pystr | Raised

function process_conversation_turn ::
  "('k, 'h) env \<Rightarrow> int \<Rightarrow> ('k, 'h) world \<Rightarrow> turn_outcome \<times> ('k, 'h) world" where
  "process_conversation_turn e depth w =
     (if MAX_CONVERSATION_DEPTH \<le> depth then (Reply DEPTH_LIMIT_MESSAGE, w)
      else
        let system_prompt = update_system_prompt e (generate_xml e) (w_handlers w) (w_tick w);
            w1 = w\<lparr> w_context := get_current_context (w_session w) \<rparr>;
            streamed = get_response_stream e w1 system_prompt;
            response_content = fst streamed;
            has_function_calls = fst (snd streamed);
            w2 = snd (snd streamed);
            w3 = w2\<lparr> w_log := w_log w2 @ [LogApiCall AI_MODEL] \<rparr>;
            stored = add_assistant_message e w3 response_content;
            w4 = snd stored
        in if fst stored = RaisedOSError then (Raised, w4)
           else if has_function_calls then
             (let ran = run_function_calls e w4 response_content
              in if fst ran = None then (Raised, snd ran)
                 else if fst ran = Some True then (Reply response_content, snd ran)
                 else process_conversation_turn e (depth + 1) (snd ran))
           else (Reply response_content, w4))"
  by pat_completeness auto
termination
  by (relation "measure (\<lambda>(e, depth, w). nat (MAX_CONVERSATION_DEPTH - depth))") auto

declare process_conversation_turn.simps [simp del]

text \<open>
  An environment for examples: the model answers every request with the two chunks
  \<open>he\<close>, \<open>llo\<close>; no handler state; a clock that stands still.
\<close>

definition demo_env :: "(unit, unit) env" where
  "demo_env =
     \<lparr> stream_model = (\<lambda>_ _ _. ([lit ''he'', lit ''llo''], None)),
       update_system_prompt = (\<lambda>xml _ _. lit ''You are helpful. '' @ xml),
       generate_xml = [],
       parse_and_execute = (\<lambda>_ h. (Some [], h)),
       clock = (\<lambda>_. \<lparr> r_iso = lit ''2025-08-28T10:05:00'', r_today = lit ''2025-08-28'',
                       r_time = 400 \<rparr>),
       disk_at = (\<lambda>_. DiskOk),
       on_text_chunk = True,
       on_function_call = True \<rparr>"

definition demo_world :: "(unit, unit) world" where
  "demo_world =
     \<lparr> w_session = demo_created, w_context = [], w_detector = reset, w_requests = [],
       w_log = [], w_shown = [], w_notified = [], w_handlers = (), w_tick = 0 \<rparr>"

section \<open>The smart parameter parser (\<open>core/function_registry.py\<close>)\<close>

text \<open>
  \<open>parse_value\<close> rests on Python's library: \<open>str.strip\<close>, \<open>str.lower\<close>,
  \<open>str.isdigit\<close>, \<open>int\<close>, \<open>float\<close> and \<open>json.loads\<close>. On ASCII text the string methods
  are written out here; what they do with the other code points is a table of the
  Unicode database and is a parameter. \<open>int\<close> and \<open>float\<close> are written out for the
  strings of ASCII digits, \<open>-\<close> and \<open>.\<close> of moderate length (no digit limit, no overflow)
  and are parameters elsewhere. \<open>json.loads\<close> is a parameter altogether: it returns a
  decoded value, raises \<open>JSONDecodeError\<close>, or raises something else (\<open>RecursionError\<close> on
  very deep nesting), which \<open>parse_value\<close> does not catch.
\<close>

datatype json =
    JNull
  | JBool bool
  | JInt int
  | JFloat bool pyfloat
  | JStr pystr
  | JArr "json list"
  | JObj "(pystr \<times> json) list"

datatype loads_outcome = Loaded json | JSONDecodeError | OtherError

record pylib =
  json_loads :: "pystr \<Rightarrow> loads_outcome"
  isspace_other :: "nat \<Rightarrow> bool"
  isdigit_other :: "nat \<Rightarrow> bool"
  lower_other :: "pystr \<Rightarrow> pystr"
  int_other :: "pystr \<Rightarrow> int option"
  float_other :: "pystr \<Rightarrow> (bool \<times> pyfloat) option"

definition is_ascii :: "nat \<Rightarrow> bool" where
  "is_ascii c = (c < 128)"

definition ascii_digit :: "nat \<Rightarrow> bool" where
  "ascii_digit c = (48 \<le> c \<and> c \<le> 57)"

definition py_isspace :: "pylib \<Rightarrow> nat \<Rightarrow> bool" where
  "py_isspace lib c =
     (if is_ascii c then (9 \<le> c \<and> c \<le> 13) \<or> (28 \<le> c \<and> c \<le> 32) else isspace_other lib c)"

definition py_strip :: "pylib \<Rightarrow> pystr \<Rightarrow> pystr" where
  "py_strip lib s = rev (dropWhile (py_isspace lib) (rev (dropWhile (py_isspace lib) s)))"

definition py_isdigit_char :: "pylib \<Rightarrow> nat \<Rightarrow> bool" where
  "py_isdigit_char lib c = (if is_ascii c then ascii_digit c else isdigit_other lib c)"

text \<open>\<open>s.isdigit()\<close>: at least one character, and every character a digit.\<close>

definition py_isdigit :: "pylib \<Rightarrow> pystr \<Rightarrow> bool" where
  "py_isdigit lib s = (s \<noteq> [] \<and> list_all (py_isdigit_char lib) s)"

text \<open>
  \<open>s.lower()\<close>: the ASCII capitals move to their small letters; a digit of any script
  has no case and stays. A string with any other code point is left to the parameter.
\<close>

definition ascii_lower :: "nat \<Rightarrow> nat" where
  "ascii_lower c = (if 65 \<le> c \<and> c \<le> 90 then c + 32 else c)"

definition py_lower :: "pylib \<Rightarrow> pystr \<Rightarrow> pystr" where
  "py_lower lib s =
     (if list_all (\<lambda>c. is_ascii c \<or> isdigit_other lib c) s then map ascii_lower s
      else lower_other lib s)"

text \<open>\<open>s.replace(c, '')\<close> for a single character \<open>c\<close>.\<close>

definition py_remove :: "nat \<Rightarrow> pystr \<Rightarrow> pystr" where
  "py_remove c s = filter (\<lambda>x. x \<noteq> c) s"

definition plain_numeric :: "pystr \<Rightarrow> bool" where
  "plain_numeric s = list_all (\<lambda>c. ascii_digit c \<or> c = 45 \<or> c = 46) s"

definition int_of_digits :: "pystr \<Rightarrow> int" where
  "int_of_digits ds = foldl (\<lambda>a d. 10 * a + (int d - 48)) 0 ds"

text \<open>
  \<open>int(s)\<close> on a string of ASCII digits, \<open>-\<close> and \<open>.\<close>: an optional leading minus and
  then one digit or more; anything else raises \<open>ValueError\<close> (\<open>None\<close>).
\<close>

definition int_plain :: "pystr \<Rightarrow> int option" where
  "int_plain s =
     (let neg = (s \<noteq> [] \<and> hd s = 45);
          body = (if neg then tl s else s)
      in if body \<noteq> [] \<and> list_all ascii_digit body
         then Some (if neg then - int_of_digits body else int_of_digits body)
         else None)"

definition py_int :: "pylib \<Rightarrow> pystr \<Rightarrow> int option" where
  "py_int lib s = (if plain_numeric s \<and> length s \<le> 640 then int_plain s else int_other lib s)"

text \<open>
  \<open>float(s)\<close> on such a string: an optional leading minus, digits, at most one point,
  digits, with a digit somewhere. The value is the decimal number rounded to binary64;
  the sign is kept apart (\<open>True\<close> for minus), so that \<open>-0.0\<close> is told from \<open>0.0\<close>.
\<close>

definition float_plain :: "pystr \<Rightarrow> (bool \<times> pyfloat) option" where
  "float_plain s =
     (let neg = (s \<noteq> [] \<and> hd s = 45);
          body = (if neg then tl s else s);
          whole = takeWhile (\<lambda>c. c \<noteq> 46) body;
          rest = dropWhile (\<lambda>c. c \<noteq> 46) body
      in if rest = [] then
           (if whole \<noteq> [] \<and> list_all ascii_digit whole
            then Some (neg, round_binary64 (int_of_digits whole) 1)
            else None)
         else
           (let frac = tl rest
            in if list_all ascii_digit whole \<and> list_all ascii_digit frac \<and>
                  (whole \<noteq> [] \<or> frac \<noteq> [])
               then Some (neg, round_binary64 (int_of_digits (whole @ frac)) (10 ^ length frac))
               else None))"

definition py_float :: "pylib \<Rightarrow> pystr \<Rightarrow> (bool \<times> pyfloat) option" where
  "py_float lib s =
     (if plain_numeric s \<and> length s \<le> 300 then float_plain s else float_other lib s)"

text \<open>
  What \<open>parse_value\<close> returns: the argument itself when it is not a \<open>str\<close>, a decoded
  JSON value, a bool, an int, a float, or a string. \<open>Escapes\<close> stands for the exception
  of \<open>json.loads\<close> that is not caught.
\<close>

datatype 'a parsed =
    PObject 'a
  | PStr pystr
  | PJson json
  | PBool bool
  | PInt int
  | PFloat bool pyfloat

datatype 'a parse_outcome = Value "'a parsed" | Escapes

text \<open>The checks after the JSON attempt: booleans, then numbers, then the string itself.\<close>

definition parse_scalar :: "pylib \<Rightarrow> pystr \<Rightarrow> 'a parsed" where
  "parse_scalar lib v =
     (if py_lower lib v = lit ''true'' \<or> py_lower lib v = lit ''false''
      then PBool (py_lower lib v = lit ''true'')
      else if py_isdigit lib (py_remove 46 (py_remove 45 v)) then
        (if 46 \<notin> set v
         then (case py_int lib v of Some n \<Rightarrow> PInt n | None \<Rightarrow> PStr v)
         else (case py_float lib v of Some (neg, x) \<Rightarrow> PFloat neg x | None \<Rightarrow> PStr v))
      else PStr v)"

definition parse_value :: "pylib \<Rightarrow> 'a pyvalue \<Rightarrow> 'a parse_outcome" where
  "parse_value lib val =
     (case val of
        Other x \<Rightarrow> Value (PObject x)
      | Str s \<Rightarrow>
          let v = py_strip lib s
          in if v = [] then Value (PStr [])
             else if (hd v = 123 \<and> last v = 125) \<or> (hd v = 91 \<and> last v = 93) then
               (case json_loads lib v of
                  Loaded j \<Rightarrow> Value (PJson j)
                | JSONDecodeError \<Rightarrow> Value (parse_scalar lib v)
                | OtherError \<Rightarrow> Escapes)
             else Value (parse_scalar lib v))"

text \<open>The three JSON inputs of the examples, and a library that decodes them as Python does.\<close>

definition json_object_text :: pystr where
  \<open>json_object_text = lit ''{"a": 1}''\<close>

definition json_array_text :: pystr where
  \<open>json_array_text = lit ''[1,2]''\<close>

definition json_broken_text :: pystr where
  \<open>json_broken_text = lit ''{not json}''\<close>

definition demo_lib :: pylib where
  "demo_lib =
     \<lparr> json_loads = (\<lambda>s. if s = json_object_text then Loaded (JObj [(lit ''a'', JInt 1)])
                          else if s = json_array_text then Loaded (JArr [JInt 1, JInt 2])
                          else JSONDecodeError),
       isspace_other = (\<lambda>c. c = 133 \<or> c = 160 \<or> c = 12288),
       isdigit_other = (\<lambda>c. c = 178 \<or> c = 179 \<or> c = 185),
       lower_other = (\<lambda>s. s),
       int_other = (\<lambda>s. None),
       float_other = (\<lambda>s. None) \<rparr>"

section \<open>Properties of the task list engine\<close>

subsection \<open>The number of active tasks under each operation\<close>

lemma status_distinct:
  "PENDING \<noteq> IN_PROGRESS" "COMPLETED \<noteq> IN_PROGRESS"
  by (simp_all add: PENDING_def IN_PROGRESS_def COMPLETED_def lit_def)

lemma active_count_simps [simp]:
  "active_count [] = 0"
  "active_count (t # ts) = (if t_status t = IN_PROGRESS then Suc (active_count ts) else active_count ts)"
  "active_count (xs @ ys) = active_count xs + active_count ys"
  by (simp_all add: active_count_def)

lemma single_active_count: "single_active todos = (active_count todos \<le> 1)"
  by (simp add: single_active_def get_active_todos_def active_count_def)

lemma active_count_update_first_same:
  "(\<And>t. t_status (f t) = t_status t) \<Longrightarrow> active_count (update_first i f ts) = active_count ts"
  by (induction ts) auto

lemma active_count_update_at_same:
  "(\<And>t. t_status (f t) = t_status t) \<Longrightarrow> active_count (update_at k f ts) = active_count ts"
  by (induction k f ts rule: update_at.induct) auto

lemma active_count_update_first_le:
  "(\<And>t. t_status (f t) \<noteq> IN_PROGRESS) \<Longrightarrow> active_count (update_first i f ts) \<le> active_count ts"
  by (induction ts) auto

lemma active_count_update_first_Suc:
  "active_count (update_first i f ts) \<le> Suc (active_count ts)"
  by (induction ts) auto

lemma active_count_remove1: "active_count (remove1 t ts) \<le> active_count ts"
  by (induction ts) auto

lemma active_count_log_execution:
  "active_count (snd (log_execution ts i a d n)) = active_count ts"
  by (simp add: log_execution_def active_count_update_first_same split: option.splits)

lemma active_count_complete_todo:
  "active_count (snd (complete_todo ts i n1 n2)) \<le> active_count ts"
proof (cases "find_todo ts i")
  case None
  then show ?thesis by (simp add: complete_todo_def)
next
  case (Some t)
  let ?ts1 = "update_first i (\<lambda>t. t\<lparr>t_status := COMPLETED, t_progress := Some 100,
                        t_completed_at := Some (Some n1)\<rparr>) ts"
  have "active_count ?ts1 \<le> active_count ts"
    by (rule active_count_update_first_le) (simp add: status_distinct)
  moreover have "snd (complete_todo ts i n1 n2) = snd (log_execution ?ts1 i (lit ''completed'')
                     ([20219, 21153, 23436, 25104, 58, 32] @ t_content t) n2)"
    using Some by (simp add: complete_todo_def Let_def split: prod.splits outcome.splits)
  ultimately show ?thesis by (simp add: active_count_log_execution)
qed


lemma active_count_update_all_loop:
  "active_count (snd (update_all_loop i ds acc)) \<le>
     active_count acc + length (filter (\<lambda>d. d_status d = Some IN_PROGRESS) ds)"
proof (induction i ds acc rule: update_all_loop.induct)
  case (1 i todos)
  then show ?case by simp
next
  case (2 i d ds todos)
  show ?case
  proof (cases "d_content d")
    case None
    then show ?thesis by simp
  next
    case (Some c)
    with 2 show ?thesis
      by (auto simp: status_distinct split: option.splits)
  qed
qed

lemma find_todo_update_first:
  "(\<And>t. t_id (f t) = t_id t) \<Longrightarrow> find_todo (update_first i f ts) j =
     (if j = i then map_option f (find_todo ts i) else find_todo ts j)"
  by (induction ts) auto

lemma active_count_zero_iff:
  "(active_count ts = 0) = (filter (\<lambda>t. t_status t = IN_PROGRESS) ts = [])"
  by (simp add: active_count_def)

lemma active_count_update_first_from_zero:
  "active_count ts = 0 \<Longrightarrow> active_count (update_first i f ts) \<le> 1"
  using active_count_update_first_Suc [of i f ts] by simp

lemma active_count_start_todo:
  "active_count ts \<le> 1 \<Longrightarrow> active_count (snd (start_todo ts i n1 n2)) \<le> 1"
proof (cases "filter (\<lambda>t. t_status t = IN_PROGRESS) ts \<noteq> []")
  case True
  assume "active_count ts \<le> 1"
  with True show ?thesis by (simp add: start_todo_def)
next
  case False
  then have z: "active_count ts = 0" by (simp add: active_count_zero_iff)
  show ?thesis
  proof (cases "find_todo ts i")
    case None
    with False z show ?thesis by (simp add: start_todo_def)
  next
    case (Some t)
    let ?ts1 = "update_first i
                  (\<lambda>t. t\<lparr>t_status := IN_PROGRESS, t_started_at := Some (Some n1)\<rparr>) ts"
    have "snd (start_todo ts i n1 n2) = snd (log_execution ?ts1 i (lit ''started'')
            ([24320, 22987, 25191, 34892, 20219, 21153, 58, 32] @ t_content t) n2)"
      using Some False by (simp add: start_todo_def Let_def split: prod.splits outcome.splits)
    then show ?thesis
      using active_count_update_first_from_zero [OF z, of i]
      by (simp add: active_count_log_execution)
  qed
qed

lemma active_count_break_down_task:
  "active_count (snd (break_down_task ts i cs n)) = active_count ts"
proof (cases "find_todo ts i")
  case None
  then show ?thesis by (simp add: break_down_task_def)
next
  case (Some t)
  let ?ts1 = "update_first i (\<lambda>t. t\<lparr>t_subtasks := Some (make_subtasks i cs)\<rparr>) ts"
  have "snd (break_down_task ts i cs n) = snd (log_execution ?ts1 i (lit ''breakdown'')
                     ([20219, 21153, 20998, 35299, 20026] @ str_nat (length (make_subtasks i cs))
                        @ [20010, 23376, 20219, 21153]) n)"
    using Some by (simp add: break_down_task_def Let_def split: prod.splits outcome.splits)
  then show ?thesis
    by (simp add: active_count_log_execution active_count_update_first_same)
qed

lemma active_count_update_progress:
  "active_count (snd (update_progress ts i v n1 n2 n3)) \<le> active_count ts"
proof (cases "find_todo ts i")
  case None
  then show ?thesis by (simp add: update_progress_def)
next
  case (Some t)
  show ?thesis
  proof (cases "t_progress t")
    case None
    with Some show ?thesis by (simp add: update_progress_def)
  next
    case (Some old)
    let ?ts1 = "update_first i (\<lambda>t. t\<lparr>t_progress := Some (max 0 (min 100 v))\<rparr>) ts"
    let ?lg = "log_execution ?ts1 i (lit ''progress'')
                          ([36827, 24230, 26356, 26032, 58, 32] @ str_int old
                             @ lit ''% -> '' @ str_int v @ lit ''%'') n1"
    have a: "active_count (snd ?lg) = active_count ts"
      by (simp add: active_count_log_execution active_count_update_first_same)
    have "snd (update_progress ts i v n1 n2 n3) = snd ?lg \<or>
          snd (update_progress ts i v n1 n2 n3) = snd (complete_todo (snd ?lg) i n2 n3)"
      using Some \<open>find_todo ts i = Some t\<close>
      by (simp add: update_progress_def Let_def split: prod.splits outcome.splits)
    then show ?thesis
      using a active_count_complete_todo [of "snd ?lg" i n2 n3] by auto
  qed
qed

lemma active_count_complete_subtask:
  "active_count (snd (complete_subtask ts i sid n1 n2 n3)) \<le> active_count ts"
proof (cases "scan_subtask ts i sid 0")
  case NoSuchSubtask
  then show ?thesis by (simp add: complete_subtask_def)
next
  case SubtasksMissing
  then show ?thesis by (simp add: complete_subtask_def)
next
  case (FoundAt k sts st)
  let ?sub = "mark_completed sid sts"
  let ?ts1 = "update_at k (\<lambda>t. t\<lparr>t_subtasks := Some ?sub\<rparr>) ts"
  let ?lg = "log_execution ?ts1 i (lit ''subtask_completed'')
                     ([23436, 25104, 23376, 20219, 21153, 58, 32] @ st_content st) n1"
  let ?ts3 = "update_at k (\<lambda>t. t\<lparr>t_progress := Some (percent_of (length (filter st_completed ?sub)) (length ?sub))\<rparr>) (snd ?lg)"
  have a: "active_count (snd ?lg) = active_count ts"
    by (simp add: active_count_log_execution active_count_update_at_same)
  have b: "active_count ?ts3 = active_count ts"
    using a by (simp add: active_count_update_at_same)
  have "snd (complete_subtask ts i sid n1 n2 n3) = snd ?lg \<or>
        snd (complete_subtask ts i sid n1 n2 n3) = ?ts3 \<or>
        snd (complete_subtask ts i sid n1 n2 n3) = snd (complete_todo ?ts3 i n2 n3)"
    using FoundAt
    by (simp add: complete_subtask_def Let_def split: prod.splits outcome.splits)
  then show ?thesis
    using a b active_count_complete_todo [of ?ts3 i n2 n3] by auto
qed

lemma run_op_single_active:
  "single_active todos \<Longrightarrow> \<not> unchecked_status_write op \<Longrightarrow> single_active (run_op op todos)"
proof (cases op)
  case (OpAdd c p now)
  assume "single_active todos"
  then show ?thesis using OpAdd
    by (simp add: single_active_count add_def Let_def status_distinct)
next
  case (OpModify i c p)
  assume "single_active todos"
  then show ?thesis using OpModify
    by (simp add: single_active_count modify_def Let_def active_count_update_first_same
        split: option.splits)
next
  case (OpDelete i)
  assume "single_active todos"
  then show ?thesis using OpDelete active_count_remove1 [of _ todos]
    by (auto simp: single_active_count delete_def split: option.splits intro: order_trans)
next
  case (OpUpdateAll ds)
  assume "\<not> unchecked_status_write op"
  then have "length (filter (\<lambda>d. d_status d = Some IN_PROGRESS) ds) \<le> 1"
    using OpUpdateAll by simp
  then show ?thesis using OpUpdateAll active_count_update_all_loop [of 1 ds "[]"]
    by (simp add: single_active_count update_all_def)
next
  case (OpUpdateStatus i s)
  assume "single_active todos" "\<not> unchecked_status_write op"
  then show ?thesis using OpUpdateStatus
      active_count_update_first_le [of "\<lambda>t. t\<lparr>t_status := s\<rparr>" i todos]
    by (auto simp: single_active_count update_status_def Let_def split: option.splits)
next
  case (OpStartTodo i n1 n2)
  assume "single_active todos"
  then show ?thesis using OpStartTodo active_count_start_todo [of todos i n1 n2]
    by (simp add: single_active_count)
next
  case (OpBreakDownTask i cs n)
  assume "single_active todos"
  then show ?thesis using OpBreakDownTask
    by (simp add: single_active_count active_count_break_down_task)
next
  case (OpUpdateProgress i v n1 n2 n3)
  assume "single_active todos"
  then show ?thesis using OpUpdateProgress active_count_update_progress [of todos i v n1 n2 n3]
    by (simp add: single_active_count)
next
  case (OpCompleteSubtask i sid n1 n2 n3)
  assume "single_active todos"
  then show ?thesis using OpCompleteSubtask active_count_complete_subtask [of todos i sid n1 n2 n3]
    by (simp add: single_active_count)
next
  case (OpCompleteTodo i n1 n2)
  assume "single_active todos"
  then show ?thesis using OpCompleteTodo active_count_complete_todo [of todos i n1 n2]
    by (simp add: single_active_count)
next
  case (OpLogExecution i a d n)
  assume "single_active todos"
  then show ?thesis using OpLogExecution
    by (simp add: single_active_count active_count_log_execution)
qed

lemma update_first_twice:
  "(\<And>t. t_id (f t) = t_id t) \<Longrightarrow>
     update_first i g (update_first i f ts) = update_first i (\<lambda>t. g (f t)) ts"
  by (induction ts) auto

lemma update_first_cong_found:
  "find_todo ts i = Some t \<Longrightarrow> f t = g t \<Longrightarrow> update_first i f ts = update_first i g ts"
  by (induction ts) (auto split: if_splits)

lemma log_execution_found:
  "find_todo ts i = Some t \<Longrightarrow> t_execution_log t = Some l \<Longrightarrow>
     log_execution ts i a d n =
       (Returned True,
        update_first i (\<lambda>t. t\<lparr>t_execution_log := Some (l @
            [\<lparr> le_timestamp = n, le_action = a, le_description = d \<rparr>])\<rparr>) ts)"
  by (simp add: log_execution_def)

lemma start_todo_rejected:
  "get_active_todos ts \<noteq> [] \<Longrightarrow> start_todo ts i n1 n2 = (Returned None, ts)"
  by (simp add: start_todo_def get_active_todos_def)

lemma start_todo_accepted:
  assumes idle: "get_active_todos ts = []"
    and found: "find_todo ts i = Some t"
    and log: "t_execution_log t = Some l"
  shows "start_todo ts i n1 n2 =
           (Returned (Some (started n1 n2 l t)), update_first i (\<lambda>_. started n1 n2 l t) ts)"
proof -
  let ?f = "\<lambda>t. t\<lparr>t_status := IN_PROGRESS, t_started_at := Some (Some n1)\<rparr>"
  let ?ts1 = "update_first i ?f ts"
  let ?d = "[24320, 22987, 25191, 34892, 20219, 21153, 58, 32] @ t_content t"
  let ?g = "\<lambda>t. t\<lparr>t_execution_log := Some (l @
            [\<lparr> le_timestamp = n2, le_action = lit ''started'', le_description = ?d \<rparr>])\<rparr>"
  have f1: "find_todo ?ts1 i = Some (?f t)"
    using found by (simp add: find_todo_update_first)
  have lg: "log_execution ?ts1 i (lit ''started'') ?d n2 = (Returned True, update_first i ?g ?ts1)"
    using log_execution_found [OF f1, of l] log by simp
  have tw: "update_first i ?g ?ts1 = update_first i (\<lambda>t. ?g (?f t)) ts"
    by (rule update_first_twice) simp
  have eq: "update_first i (\<lambda>t. ?g (?f t)) ts = update_first i (\<lambda>_. started n1 n2 l t) ts"
    by (rule update_first_cong_found [OF found]) (simp add: started_def)
  have f2: "find_todo (update_first i (\<lambda>t. ?g (?f t)) ts) i = Some (?g (?f t))"
    using found by (simp add: find_todo_update_first)
  have st: "?g (?f t) = started n1 n2 l t" by (simp add: started_def)
  show ?thesis
    using idle found lg tw eq f2 st
    by (simp add: start_todo_def get_active_todos_def Let_def)
qed

subsection \<open>What each operation writes to the task it finds\<close>

lemma find_todo_id: "find_todo ts i = Some t \<Longrightarrow> t_id t = i"
  by (induction ts) (auto split: if_splits)

lemma update_first_const:
  "find_todo ts i = Some t \<Longrightarrow> update_first i f ts = update_first i (\<lambda>_. f t) ts"
  by (induction ts) (auto split: if_splits)

lemma update_first_const_twice:
  "t_id c = i \<Longrightarrow> update_first i g (update_first i (\<lambda>_. c) ts) = update_first i (\<lambda>_. g c) ts"
  by (induction ts) auto

lemma find_todo_update_first_const:
  "find_todo ts i = Some t \<Longrightarrow> t_id c = i \<Longrightarrow> find_todo (update_first i (\<lambda>_. c) ts) i = Some c"
  by (induction ts) (auto split: if_splits)

lemma log_execution_const:
  assumes "find_todo ts i = Some t" and "t_id c = i" and "t_execution_log c = Some l"
  shows "log_execution (update_first i (\<lambda>_. c) ts) i a d n =
           (Returned True,
            update_first i (\<lambda>_. c\<lparr>t_execution_log := Some (l @
               [\<lparr> le_timestamp = n, le_action = a, le_description = d \<rparr>])\<rparr>) ts)"
  using assms
  by (simp add: log_execution_def find_todo_update_first_const update_first_const_twice)

lemma complete_todo_const:
  assumes "find_todo ts i = Some t" and "t_id c = i" and "t_execution_log c = Some l"
  shows "complete_todo (update_first i (\<lambda>_. c) ts) i n1 n2 =
           (Returned (Some (c\<lparr>t_status := COMPLETED, t_progress := Some 100,
                        t_completed_at := Some (Some n1),
                        t_execution_log := Some (l @
               [\<lparr> le_timestamp = n2, le_action = lit ''completed'',
                  le_description = [20219, 21153, 23436, 25104, 58, 32] @ t_content c \<rparr>])\<rparr>)),
            update_first i (\<lambda>_. c\<lparr>t_status := COMPLETED, t_progress := Some 100,
                        t_completed_at := Some (Some n1),
                        t_execution_log := Some (l @
               [\<lparr> le_timestamp = n2, le_action = lit ''completed'',
                  le_description = [20219, 21153, 23436, 25104, 58, 32] @ t_content c \<rparr>])\<rparr>) ts)"
proof -
  let ?c1 = "c\<lparr>t_status := COMPLETED, t_progress := Some 100, t_completed_at := Some (Some n1)\<rparr>"
  have f: "find_todo (update_first i (\<lambda>_. c) ts) i = Some c"
    using assms by (simp add: find_todo_update_first_const)
  have u: "update_first i (\<lambda>t. t\<lparr>t_status := COMPLETED, t_progress := Some 100,
                        t_completed_at := Some (Some n1)\<rparr>) (update_first i (\<lambda>_. c) ts)
           = update_first i (\<lambda>_. ?c1) ts"
    using assms by (simp add: update_first_const_twice)
  have lg: "log_execution (update_first i (\<lambda>_. ?c1) ts) i (lit ''completed'')
              ([20219, 21153, 23436, 25104, 58, 32] @ t_content c) n2 =
            (Returned True, update_first i (\<lambda>_. ?c1\<lparr>t_execution_log := Some (l @
               [\<lparr> le_timestamp = n2, le_action = lit ''completed'',
                  le_description = [20219, 21153, 23436, 25104, 58, 32] @ t_content c \<rparr>])\<rparr>) ts)"
    using assms by (intro log_execution_const) simp_all
  show ?thesis
    using f u lg assms
    by (simp add: complete_todo_def Let_def find_todo_update_first_const)
qed

lemma update_progress_found:
  assumes found: "find_todo ts i = Some t"
    and prog: "t_progress t = Some old"
    and log: "t_execution_log t = Some l"
  shows "update_progress ts i v n1 n2 n3 =
     (let e1 = \<lparr> le_timestamp = n1, le_action = lit ''progress'',
                 le_description = [36827, 24230, 26356, 26032, 58, 32] @ str_int old
                             @ lit ''% -> '' @ str_int v @ lit ''%'' \<rparr>;
          e2 = \<lparr> le_timestamp = n3, le_action = lit ''completed'',
                  le_description = [20219, 21153, 23436, 25104, 58, 32] @ t_content t \<rparr>;
          t' = (if 100 \<le> v
                then t\<lparr>t_status := COMPLETED, t_progress := Some 100,
                       t_completed_at := Some (Some n2), t_execution_log := Some (l @ [e1, e2])\<rparr>
                else t\<lparr>t_progress := Some (max 0 (min 100 v)),
                       t_execution_log := Some (l @ [e1])\<rparr>)
      in (Returned (Some t'), update_first i (\<lambda>_. t') ts))"
proof -
  let ?e1 = "\<lparr> le_timestamp = n1, le_action = lit ''progress'',
                 le_description = [36827, 24230, 26356, 26032, 58, 32] @ str_int old
                             @ lit ''% -> '' @ str_int v @ lit ''%'' \<rparr>"
  let ?c1 = "t\<lparr>t_progress := Some (max 0 (min 100 v))\<rparr>"
  let ?c2 = "?c1\<lparr>t_execution_log := Some (l @ [?e1])\<rparr>"
  have id: "t_id t = i" using found by (rule find_todo_id)
  have u1: "update_first i (\<lambda>t. t\<lparr>t_progress := Some (max 0 (min 100 v))\<rparr>) ts
            = update_first i (\<lambda>_. ?c1) ts"
    using found by (rule update_first_const)
  have lg: "log_execution (update_first i (\<lambda>_. ?c1) ts) i (lit ''progress'')
              ([36827, 24230, 26356, 26032, 58, 32] @ str_int old
                             @ lit ''% -> '' @ str_int v @ lit ''%'') n1
            = (Returned True, update_first i (\<lambda>_. ?c2) ts)"
    using found id log by (intro log_execution_const) simp_all
  have f2: "find_todo (update_first i (\<lambda>_. ?c2) ts) i = Some ?c2"
    using found id by (simp add: find_todo_update_first_const)
  have ct: "complete_todo (update_first i (\<lambda>_. ?c2) ts) i n2 n3 =
      (Returned (Some (?c2\<lparr>t_status := COMPLETED, t_progress := Some 100,
                        t_completed_at := Some (Some n2),
                        t_execution_log := Some ((l @ [?e1]) @
               [\<lparr> le_timestamp = n3, le_action = lit ''completed'',
                  le_description = [20219, 21153, 23436, 25104, 58, 32] @ t_content ?c2 \<rparr>])\<rparr>)),
            update_first i (\<lambda>_. ?c2\<lparr>t_status := COMPLETED, t_progress := Some 100,
                        t_completed_at := Some (Some n2),
                        t_execution_log := Some ((l @ [?e1]) @
               [\<lparr> le_timestamp = n3, le_action = lit ''completed'',
                  le_description = [20219, 21153, 23436, 25104, 58, 32] @ t_content ?c2 \<rparr>])\<rparr>) ts)"
    using found id by (intro complete_todo_const) simp_all
  show ?thesis
  proof (cases "100 \<le> v")
    case True
    then show ?thesis
      using found prog u1 lg ct id
      by (simp add: update_progress_def Let_def find_todo_update_first_const)
  next
    case False
    then show ?thesis
      using found prog u1 lg f2
      by (simp add: update_progress_def Let_def)
  qed
qed

subsection \<open>What \<open>complete_subtask\<close> writes\<close>

lemma update_at_first_index: "update_at (first_index i ts) f ts = update_first i f ts"
  by (induction ts) auto

lemma todo_at_first_index: "todo_at ts (first_index i ts) = find_todo ts i"
  by (induction ts) auto

lemma first_index_update_first:
  "(\<And>u. t_id (f u) = t_id u) \<Longrightarrow> first_index i (update_first i f ts) = first_index i ts"
  by (induction ts) auto

lemma first_index_update_first_const:
  "t_id c = i \<Longrightarrow> first_index i (update_first i (\<lambda>_. c) ts) = first_index i ts"
  by (induction ts) auto

lemma scan_subtask_first:
  assumes "find_todo ts i = Some t" and "t_subtasks t = Some sts"
    and "find_subtask sts sid = Some st"
  shows "scan_subtask ts i sid k0 = FoundAt (k0 + first_index i ts) sts st"
  using assms by (induction ts arbitrary: k0) (auto split: if_splits)

lemma find_subtask_length: "find_subtask sts sid = Some st \<Longrightarrow> 0 < length (mark_completed sid sts)"
  by (cases sts) auto

lemma complete_subtask_found:
  assumes found: "find_todo ts i = Some t"
    and subs: "t_subtasks t = Some sts"
    and sub: "find_subtask sts sid = Some st"
    and log: "t_execution_log t = Some l"
  shows "complete_subtask ts i sid n1 n2 n3 =
     (let subtasks = mark_completed sid sts;
          completed_count = length (filter st_completed subtasks);
          total_count = length subtasks;
          e1 = \<lparr> le_timestamp = n1, le_action = lit ''subtask_completed'',
                 le_description = [23436, 25104, 23376, 20219, 21153, 58, 32] @ st_content st \<rparr>;
          e2 = \<lparr> le_timestamp = n3, le_action = lit ''completed'',
                 le_description = [20219, 21153, 23436, 25104, 58, 32] @ t_content t \<rparr>;
          t' = (if completed_count = total_count
                then t\<lparr>t_subtasks := Some subtasks, t_status := COMPLETED,
                       t_progress := Some 100, t_completed_at := Some (Some n2),
                       t_execution_log := Some (l @ [e1, e2])\<rparr>
                else t\<lparr>t_subtasks := Some subtasks,
                       t_execution_log := Some (l @ [e1]),
                       t_progress := Some (percent_of completed_count total_count)\<rparr>)
      in (Returned (Some t'), update_first i (\<lambda>_. t') ts))"
proof -
  let ?sub = "mark_completed sid sts"
  let ?cc = "length (filter st_completed ?sub)"
  let ?n = "length ?sub"
  let ?k = "first_index i ts"
  let ?e1 = "\<lparr> le_timestamp = n1, le_action = lit ''subtask_completed'',
                 le_description = [23436, 25104, 23376, 20219, 21153, 58, 32] @ st_content st \<rparr>"
  let ?e2 = "\<lparr> le_timestamp = n3, le_action = lit ''completed'',
                 le_description = [20219, 21153, 23436, 25104, 58, 32] @ t_content t \<rparr>"
  let ?c1 = "t\<lparr>t_subtasks := Some ?sub\<rparr>"
  let ?c2 = "?c1\<lparr>t_execution_log := Some (l @ [?e1])\<rparr>"
  let ?c3 = "?c2\<lparr>t_progress := Some (percent_of ?cc ?n)\<rparr>"
  let ?c4 = "?c3\<lparr>t_status := COMPLETED, t_progress := Some 100,
                        t_completed_at := Some (Some n2),
                        t_execution_log := Some ((l @ [?e1]) @
               [\<lparr> le_timestamp = n3, le_action = lit ''completed'',
                  le_description = [20219, 21153, 23436, 25104, 58, 32] @ t_content ?c3 \<rparr>])\<rparr>"
  have id: "t_id t = i" using found by (rule find_todo_id)
  have sc: "scan_subtask ts i sid 0 = FoundAt ?k sts st"
    using scan_subtask_first [OF found subs sub, of 0] by simp
  have npos: "0 < ?n" using sub by (rule find_subtask_length)
  have u1: "update_at ?k (\<lambda>t. t\<lparr>t_subtasks := Some ?sub\<rparr>) ts = update_first i (\<lambda>_. ?c1) ts"
    using update_first_const [OF found] by (simp add: update_at_first_index)
  have lg: "log_execution (update_first i (\<lambda>_. ?c1) ts) i (lit ''subtask_completed'')
              ([23436, 25104, 23376, 20219, 21153, 58, 32] @ st_content st) n1
            = (Returned True, update_first i (\<lambda>_. ?c2) ts)"
    using found id log by (intro log_execution_const) simp_all
  have k2: "first_index i (update_first i (\<lambda>_. ?c2) ts) = ?k"
    using id by (simp add: first_index_update_first_const)
  have u3: "update_at ?k (\<lambda>t. t\<lparr>t_progress := Some (percent_of ?cc ?n)\<rparr>)
              (update_first i (\<lambda>_. ?c2) ts) = update_first i (\<lambda>_. ?c3) ts"
    using update_at_first_index [of i "update_first i (\<lambda>_. ?c2) ts"] k2 id
    by (simp add: update_first_const_twice)
  have t3: "todo_at (update_first i (\<lambda>_. ?c3) ts) ?k = Some ?c3"
    using todo_at_first_index [of "update_first i (\<lambda>_. ?c3) ts" i] found id
    by (simp add: first_index_update_first_const find_todo_update_first_const)
  have ct: "complete_todo (update_first i (\<lambda>_. ?c3) ts) i n2 n3 =
      (Returned (Some ?c4), update_first i (\<lambda>_. ?c4) ts)"
    using found id by (intro complete_todo_const) simp_all
  have t4: "todo_at (update_first i (\<lambda>_. ?c4) ts) ?k = Some ?c4"
    using todo_at_first_index [of "update_first i (\<lambda>_. ?c4) ts" i] found id
    by (simp add: first_index_update_first_const find_todo_update_first_const)
  show ?thesis
  proof (cases "?cc = ?n")
    case True
    have "complete_subtask ts i sid n1 n2 n3 = (Returned (Some ?c4), update_first i (\<lambda>_. ?c4) ts)"
      using sc u1 lg npos u3 ct t4 True
      by (simp add: complete_subtask_def Let_def)
    then show ?thesis using True by (simp add: Let_def)
  next
    case False
    have "complete_subtask ts i sid n1 n2 n3 = (Returned (Some ?c3), update_first i (\<lambda>_. ?c3) ts)"
      using sc u1 lg npos u3 t3 False
      by (simp add: complete_subtask_def Let_def)
    then show ?thesis using False by (simp add: Let_def)
  qed
qed

subsection \<open>Numbered subtasks\<close>

lemma nat_of_digits_snoc: "nat_of_digits (ds @ [d]) = 10 * nat_of_digits ds + (d - 48)"
  by (simp add: nat_of_digits_def)

lemma nat_of_digits_str_nat: "nat_of_digits (str_nat n) = n"
proof (induction n rule: str_nat.induct)
  case (1 n)
  show ?case
  proof (cases "n < 10")
    case True
    have "str_nat n = [48 + n]" using True by (subst str_nat.simps) simp
    then show ?thesis by (simp add: nat_of_digits_def)
  next
    case False
    with 1 have ih: "nat_of_digits (str_nat (n div 10)) = n div 10" by simp
    have "str_nat n = str_nat (n div 10) @ [48 + n mod 10]"
      using False by (subst str_nat.simps) simp
    then show ?thesis using ih by (simp add: nat_of_digits_snoc)
  qed
qed

lemma str_nat_inj: "str_nat m = str_nat n \<Longrightarrow> m = n"
  by (metis nat_of_digits_str_nat)

lemma length_make_subtasks [simp]: "length (make_subtasks i cs) = length cs"
  by (simp add: make_subtasks_def del: upt_Suc)

lemma make_subtasks_nth:
  "k < length cs \<Longrightarrow>
     make_subtasks i cs ! k =
       \<lparr> st_id = str_int i @ lit ''-'' @ str_nat (Suc k), st_content = cs ! k,
          st_completed = False \<rparr>"
  by (simp add: make_subtasks_def del: upt_Suc)

lemma make_subtasks_incomplete: "\<forall>st \<in> set (make_subtasks i cs). \<not> st_completed st"
  by (auto simp: make_subtasks_def dest!: set_zip_leftD set_zip_rightD simp del: upt_Suc)

lemma make_subtasks_distinct: "distinct (map st_id (make_subtasks i cs))"
proof -
  have "inj_on (\<lambda>k. str_int i @ lit ''-'' @ str_nat (Suc k)) {0..<length cs}"
    by (rule inj_onI) (auto dest: str_nat_inj)
  moreover have "map st_id (make_subtasks i cs) =
      map (\<lambda>k. str_int i @ lit ''-'' @ str_nat (Suc k)) [0..<length cs]"
    by (rule nth_equalityI) (simp_all add: make_subtasks_nth)
  ultimately show ?thesis
    by (simp add: distinct_map)
qed

lemma length_complete_first [simp]: "length (complete_first n sts) = length sts"
  by (induction n sts rule: complete_first.induct) auto

lemma find_subtask_complete_first:
  "distinct (map st_id sts) \<Longrightarrow> n < length sts \<Longrightarrow>
     find_subtask (complete_first n sts) (st_id (sts ! n)) = Some (sts ! n)"
proof (induction sts arbitrary: n)
  case Nil
  then show ?case by simp
next
  case (Cons st sts)
  show ?case
  proof (cases n)
    case 0
    then show ?thesis by simp
  next
    case (Suc m)
    with Cons.prems have m: "m < length sts" by simp
    then have "sts ! m \<in> set sts" by simp
    then have "st_id (sts ! m) \<in> st_id ` set sts" by (rule imageI)
    moreover from Cons.prems have "st_id st \<notin> st_id ` set sts" by simp
    ultimately have ne: "st_id st \<noteq> st_id (sts ! m)" by metis
    from Cons.prems have "distinct (map st_id sts)" by simp
    from Cons.IH [OF this m] ne Suc show ?thesis by simp
  qed
qed

lemma mark_completed_complete_first:
  "distinct (map st_id sts) \<Longrightarrow> n < length sts \<Longrightarrow>
     mark_completed (st_id (sts ! n)) (complete_first n sts) = complete_first (Suc n) sts"
proof (induction sts arbitrary: n)
  case Nil
  then show ?case by simp
next
  case (Cons st sts)
  show ?case
  proof (cases n)
    case 0
    then show ?thesis by simp
  next
    case (Suc m)
    with Cons.prems have m: "m < length sts" by simp
    then have "sts ! m \<in> set sts" by simp
    then have "st_id (sts ! m) \<in> st_id ` set sts" by (rule imageI)
    moreover from Cons.prems have "st_id st \<notin> st_id ` set sts" by simp
    ultimately have ne: "st_id st \<noteq> st_id (sts ! m)" by metis
    from Cons.prems have "distinct (map st_id sts)" by simp
    from Cons.IH [OF this m] ne Suc show ?thesis by simp
  qed
qed

lemma count_complete_first:
  "\<forall>st \<in> set sts. \<not> st_completed st \<Longrightarrow> n \<le> length sts \<Longrightarrow>
     length (filter st_completed (complete_first n sts)) = n"
  by (induction n sts rule: complete_first.induct) auto

subsection \<open>Completing the subtasks of one task in order\<close>

lemma complete_each_snoc:
  "complete_each ts i (ks @ [k]) =
     snd (complete_subtask (complete_each ts i ks) i (str_int i @ lit ''-'' @ str_nat k)
            (lit ''t2'') (lit ''t3'') (lit ''t4''))"
  by (induction ks arbitrary: ts) auto

lemma demo_broken_down_start: "completed_upto total_count 0 (demo_broken_down total_count)"
  by (simp add: completed_upto_def demo_broken_down_def add_def break_down_task_def
      log_execution_def Let_def)

lemma completed_upto_step:
  assumes inv: "completed_upto total_count n todos" and lt: "n < total_count"
  shows "completed_upto total_count (Suc n)
           (snd (complete_subtask todos 1 (str_int 1 @ lit ''-'' @ str_nat (Suc n))
                   (lit ''t2'') (lit ''t3'') (lit ''t4'')))"
proof -
  let ?S = "make_subtasks 1 (replicate total_count (lit ''s''))"
  let ?sid = "str_int 1 @ lit ''-'' @ str_nat (Suc n)"
  from inv obtain t l where t: "todos = [t]" "t_id t = 1"
      "t_subtasks t = Some (complete_first n ?S)" "t_execution_log t = Some l"
    by (auto simp: completed_upto_def)
  have len: "length ?S = total_count" by simp
  have n: "n < length ?S" using lt by simp
  have sid: "st_id (?S ! n) = ?sid" using lt by (simp add: make_subtasks_nth)
  have found: "find_todo todos 1 = Some t" using t by simp
  have fs: "find_subtask (complete_first n ?S) ?sid = Some (?S ! n)"
    using find_subtask_complete_first [OF make_subtasks_distinct n] sid by simp
  have mk: "mark_completed ?sid (complete_first n ?S) = complete_first (Suc n) ?S"
    using mark_completed_complete_first [OF make_subtasks_distinct n] sid by simp
  have cnt: "length (filter st_completed (complete_first (Suc n) ?S)) = Suc n"
    using count_complete_first [OF make_subtasks_incomplete, of "Suc n" 1 "replicate total_count (lit ''s'')"] lt
    by simp
  have tc: "length (complete_first (Suc n) ?S) = total_count" by simp
  show ?thesis
    using complete_subtask_found [OF found t(3) fs t(4), of "lit ''t2''" "lit ''t3''" "lit ''t4''"]
      t(1,2) lt
    unfolding mk Let_def cnt tc completed_upto_def
    by (cases "Suc n = total_count") auto
qed

lemma completed_upto_run:
  "n \<le> total_count \<Longrightarrow> completed_upto total_count n (complete_each (demo_broken_down total_count) 1 [1 ..< Suc n])"
proof (induction n)
  case 0
  then show ?case by (simp add: demo_broken_down_start)
next
  case (Suc n)
  then have "completed_upto total_count n (complete_each (demo_broken_down total_count) 1 [1 ..< Suc n])"
    and "n < total_count" by simp_all
  from completed_upto_step [OF this] show ?case
    by (simp add: complete_each_snoc del: upt_Suc add: upt_Suc_append)
qed

lemma percent_29_50: "percent_of 29 50 = 57" by code_simp
lemma percent_2_4: "percent_of 2 4 = 50" by code_simp

lemma four_subtasks_half:
  "map t_progress (complete_each (demo_broken_down 4) 1 [1 ..< 3]) = [Some 50]"
proof -
  have "completed_upto 4 2 (complete_each (demo_broken_down 4) 1 [1 ..< Suc 2])"
    by (rule completed_upto_run) simp
  then have "map t_progress (complete_each (demo_broken_down 4) 1 [1 ..< Suc 2]) = [Some 50]"
    by (auto simp: completed_upto_def percent_2_4)
  moreover have "Suc 2 = 3" by simp
  ultimately show ?thesis by (simp del: upt_Suc)
qed

lemma four_subtasks_all:
  "map (\<lambda>t. (t_status t, t_progress t, t_completed_at t))
     (complete_each (demo_broken_down 4) 1 [1 ..< 5]) =
   [(COMPLETED, Some 100, Some (Some (lit ''t3'')))]"
proof -
  have "completed_upto 4 4 (complete_each (demo_broken_down 4) 1 [1 ..< Suc 4])"
    by (rule completed_upto_run) simp
  then have "map (\<lambda>t. (t_status t, t_progress t, t_completed_at t))
     (complete_each (demo_broken_down 4) 1 [1 ..< Suc 4]) =
   [(COMPLETED, Some 100, Some (Some (lit ''t3'')))]"
    by (auto simp: completed_upto_def)
  moreover have "Suc 4 = 5" by simp
  ultimately show ?thesis by (simp del: upt_Suc)
qed

subsection \<open>Records built by \<open>update_all\<close>\<close>

lemma update_all_loop_batch:
  "list_all batch_record acc \<Longrightarrow> list_all batch_record (snd (update_all_loop i ds acc))"
proof (induction i ds acc rule: update_all_loop.induct)
  case (1 i todos)
  then show ?case by simp
next
  case (2 i d ds todos)
  then show ?case
    by (cases "d_content d") (simp_all add: batch_record_def)
qed

lemma update_all_batch: "list_all batch_record (snd (update_all old ds))"
  by (simp add: update_all_def update_all_loop_batch)

lemma find_todo_in_set: "find_todo ts i = Some t \<Longrightarrow> t \<in> set ts"
  by (induction ts) (auto split: if_splits)

lemma update_progress_no_key:
  "find_todo ts i = Some t \<Longrightarrow> t_progress t = None \<Longrightarrow>
     update_progress ts i v n1 n2 n3 = (KeyError (lit ''progress''), ts)"
  by (simp add: update_progress_def)

lemma start_todo_no_key:
  assumes idle: "get_active_todos ts = []" and found: "find_todo ts i = Some t"
    and nolog: "t_execution_log t = None"
  shows "start_todo ts i n1 n2 =
           (KeyError (lit ''execution_log''),
            update_first i (\<lambda>t. t\<lparr>t_status := IN_PROGRESS, t_started_at := Some (Some n1)\<rparr>) ts)"
proof -
  let ?f = "\<lambda>t. t\<lparr>t_status := IN_PROGRESS, t_started_at := Some (Some n1)\<rparr>"
  have "find_todo (update_first i ?f ts) i = Some (?f t)"
    using found by (simp add: find_todo_update_first)
  then have "log_execution (update_first i ?f ts) i (lit ''started'')
               ([24320, 22987, 25191, 34892, 20219, 21153, 58, 32] @ t_content t) n2
             = (KeyError (lit ''execution_log''), update_first i ?f ts)"
    using nolog by (simp add: log_execution_def)
  then show ?thesis
    using idle found by (simp add: start_todo_def get_active_todos_def Let_def)
qed

subsection \<open>The single-active-task invariant\<close>

text \<open>
  C1 as stated fails: \<open>update_status\<close> overwrites the status without looking at the other
  tasks. With task 1 \<open>in_progress\<close>, \<open>update_status(2, "in_progress")\<close> leaves two active
  tasks.
\<close>

theorem single_active_update_status_counterexample:
  "single_active demo_started \<and>
   \<not> single_active (run_op (OpUpdateStatus 2 IN_PROGRESS) demo_started)"
  by (simp add: demo_started_def demo_two_def add_def start_todo_def log_execution_def
      update_status_def single_active_def get_active_todos_def Let_def
      PENDING_def IN_PROGRESS_def MEDIUM_def lit_def)

text \<open>
  C1 (amended): at most one task is \<open>in_progress\<close> in the empty list, and every operation
  keeps it so, whether it returns or raises, except the two unchecked status writes
  (\<open>update_status\<close> writing \<open>in_progress\<close>, \<open>update_all\<close> given more than one
  \<open>in_progress\<close> record). \<open>start_todo\<close> returns absent and changes nothing whenever some
  task is \<open>in_progress\<close>, whichever id is requested; when none is, and the id names a task
  with an execution log, it sets that task's status to \<open>in_progress\<close>, stores the start
  timestamp, appends a log entry tagged \<open>started\<close>, and returns the task.
\<close>

theorem single_active_guarded:
  "single_active [] \<and>
   (single_active todos \<and> \<not> unchecked_status_write op \<longrightarrow> single_active (run_op op todos)) \<and>
   (get_active_todos busy \<noteq> [] \<longrightarrow> start_todo busy i now_start now_log = (Returned None, busy)) \<and>
   (get_active_todos idle = [] \<and> find_todo idle j = Some t \<and> t_execution_log t = Some l \<longrightarrow>
      start_todo idle j now_start now_log =
        (Returned (Some (started now_start now_log l t)),
         update_first j (\<lambda>_. started now_start now_log l t) idle)) \<and>
   t_status (started now_start now_log l t) = IN_PROGRESS \<and>
   t_started_at (started now_start now_log l t) = Some (Some now_start) \<and>
   t_execution_log (started now_start now_log l t) =
     Some (l @ [\<lparr> le_timestamp = now_log, le_action = lit ''started'',
                   le_description =
                     [24320, 22987, 25191, 34892, 20219, 21153, 58, 32] @ t_content t \<rparr>])"
  using run_op_single_active [of todos op] start_todo_rejected [of busy i now_start now_log]
    start_todo_accepted [of idle j t l now_start now_log]
  by (simp add: single_active_def get_active_todos_def started_def)

theorem single_active_guarded_witness:
  "single_active demo_started \<and>
   \<not> unchecked_status_write (OpStartTodo 2 (lit ''t4'') (lit ''t5'')) \<and>
   single_active (run_op (OpStartTodo 2 (lit ''t4'') (lit ''t5'')) demo_started) \<and>
   get_active_todos demo_started \<noteq> [] \<and>
   start_todo demo_started 2 (lit ''t4'') (lit ''t5'') = (Returned None, demo_started) \<and>
   get_active_todos demo_two = [] \<and>
   find_todo demo_two 1 = Some demo_first \<and>
   t_execution_log demo_first = Some [] \<and>
   start_todo demo_two 1 (lit ''t4'') (lit ''t5'') =
     (Returned (Some (started (lit ''t4'') (lit ''t5'') [] demo_first)),
      update_first 1 (\<lambda>_. started (lit ''t4'') (lit ''t5'') [] demo_first) demo_two) \<and>
   t_status (started (lit ''t4'') (lit ''t5'') [] demo_first) = IN_PROGRESS"
proof -
  have a: "single_active demo_started"
    by (simp add: demo_started_def demo_two_def add_def start_todo_def log_execution_def
        single_active_def get_active_todos_def Let_def
        PENDING_def IN_PROGRESS_def MEDIUM_def lit_def)
  have b: "get_active_todos demo_started \<noteq> []"
    by (simp add: demo_started_def demo_two_def add_def start_todo_def log_execution_def
        get_active_todos_def Let_def PENDING_def IN_PROGRESS_def MEDIUM_def lit_def)
  have c: "get_active_todos demo_two = []"
    by (simp add: demo_two_def add_def get_active_todos_def Let_def
        PENDING_def IN_PROGRESS_def MEDIUM_def lit_def)
  have d: "find_todo demo_two 1 = Some demo_first"
    by (simp add: demo_two_def demo_first_def add_def Let_def)
  have e: "t_execution_log demo_first = Some []"
    by (simp add: demo_first_def add_def Let_def)
  show ?thesis
    using a b c d e
      single_active_guarded [where todos = demo_started
        and op = "OpStartTodo 2 (lit ''t4'') (lit ''t5'')" and busy = demo_started and i = 2
        and now_start = "lit ''t4''" and now_log = "lit ''t5''" and idle = demo_two and j = 1
        and t = demo_first and l = "[]"]
    by simp
qed

subsection \<open>Task ids\<close>

text \<open>
  C2: ids are meant to be unique and never reused after a deletion. \<open>add\<close> takes the id
  from the current length of the list, so after \<open>add\<close>, \<open>add\<close>, \<open>delete(1)\<close> the next
  \<open>add\<close> hands out id 2 again, while the task that already has id 2 is still in the list.
\<close>

theorem add_after_delete_repeats_id:
  "map t_id demo_two = [1, 2] \<and>
   map t_id demo_after_delete = [2] \<and>
   t_id (fst (add demo_after_delete (lit ''c'') MEDIUM (lit ''t2''))) = 2 \<and>
   map t_id demo_readded = [2, 2] \<and>
   \<not> distinct (map t_id demo_readded)"
  by (simp add: demo_readded_def demo_after_delete_def demo_two_def add_def delete_def Let_def)

subsection \<open>Progress updates\<close>

text \<open>
  C3, where the claim fails. The log entry does not show the new stored value: after
  \<open>update_progress(1, 150)\<close> on a task at 0 the stored progress is 100 and the entry reads
  \<open>0% -> 150%\<close>, the value as requested. And not every existing task is updated: on a
  task built by \<open>update_all\<close>, which has no \<open>progress\<close> key, the call raises
  \<open>KeyError('progress')\<close> and stores nothing.
\<close>

theorem update_progress_log_shows_request:
  "find_todo demo_progress_150 1 =
     Some \<lparr> t_id = 1, t_content = lit ''a'', t_status = COMPLETED, t_priority = MEDIUM,
            t_progress = Some 100, t_activeForm = Some ([27491, 22312] @ lit ''a''),
            t_subtasks = Some [], t_created_at = Some (lit ''t0''),
            t_started_at = Some None, t_completed_at = Some (Some (lit ''t3'')),
            t_execution_log = Some
              [\<lparr> le_timestamp = lit ''t2'', le_action = lit ''progress'',
                 le_description = [36827, 24230, 26356, 26032, 58, 32] @ lit ''0% -> 150%'' \<rparr>,
               \<lparr> le_timestamp = lit ''t4'', le_action = lit ''completed'',
                 le_description = [20219, 21153, 23436, 25104, 58, 32] @ lit ''a'' \<rparr>] \<rparr> \<and>
   lit ''0% -> 150%'' \<noteq> lit ''0% -> 100%'' \<and>
   find_todo demo_batch_idle 1 \<noteq> None \<and>
   update_progress demo_batch_idle 1 50 (lit ''t2'') (lit ''t3'') (lit ''t4'') =
     (KeyError (lit ''progress''), demo_batch_idle)"
proof -
  have zero: "str_int 0 = lit ''0''" and high: "str_int 150 = lit ''150''"
    by (simp_all add: str_int_def str_nat.simps lit_def)
  have a: "find_todo demo_two 1 = Some demo_first"
    by (simp add: demo_two_def demo_first_def add_def Let_def)
  have b: "t_progress demo_first = Some 0" and c: "t_execution_log demo_first = Some []"
    by (simp_all add: demo_first_def add_def Let_def)
  let ?done = "demo_first\<lparr> t_status := COMPLETED, t_progress := Some 100,
                         t_completed_at := Some (Some (lit ''t3'')),
                         t_execution_log := Some
                           [\<lparr> le_timestamp = lit ''t2'', le_action = lit ''progress'',
                              le_description = [36827, 24230, 26356, 26032, 58, 32] @ lit ''0''
                                                 @ lit ''% -> '' @ lit ''150'' @ lit ''%'' \<rparr>,
                            \<lparr> le_timestamp = lit ''t4'', le_action = lit ''completed'',
                              le_description = [20219, 21153, 23436, 25104, 58, 32]
                                                 @ t_content demo_first \<rparr>] \<rparr>"
  have run: "update_progress demo_two 1 150 (lit ''t2'') (lit ''t3'') (lit ''t4'') =
      (Returned (Some ?done), update_first 1 (\<lambda>_. ?done) demo_two)"
    using update_progress_found [OF a b c, of 150 "lit ''t2''" "lit ''t3''" "lit ''t4''"]
    by (simp add: Let_def zero high)
  have "t_id ?done = 1"
    by (simp add: demo_first_def add_def Let_def)
  from find_todo_update_first_const [OF a this]
  have first: "find_todo demo_progress_150 1 = Some ?done"
    by (simp add: demo_progress_150_def run)
  have texts: "lit ''0'' @ lit ''% -> '' @ lit ''150'' @ lit ''%'' = lit ''0% -> 150%''"
    "lit ''0% -> 150%'' \<noteq> lit ''0% -> 100%''"
    by (simp_all add: lit_def)
  have batch: "find_todo demo_batch_idle 1 \<noteq> None \<and>
      update_progress demo_batch_idle 1 50 (lit ''t2'') (lit ''t3'') (lit ''t4'') =
        (KeyError (lit ''progress''), demo_batch_idle)"
    by (simp add: demo_batch_idle_def update_all_def update_progress_def)
  show ?thesis
    using batch texts by (simp add: first demo_first_def add_def Let_def)
qed

text \<open>
  C3 as it holds: for the task that \<open>id\<close> names, when it carries the \<open>progress\<close> and
  \<open>execution_log\<close> keys (every task made by \<open>add\<close> does), \<open>update_progress(id, value)\<close>
  returns the task, stores the value clamped to 0..100, and appends a log entry tagged
  \<open>progress\<close> whose text shows the old stored value and the value as requested. The task
  is completed (status \<open>completed\<close>, progress 100, completion timestamp, a second log
  entry tagged \<open>completed\<close>) exactly when the clamped value is 100; otherwise status and
  completion timestamp are left as they were.
\<close>

theorem update_progress_clamps_and_completes:
  assumes found: "find_todo todos i = Some t"
    and prog: "t_progress t = Some old"
    and log: "t_execution_log t = Some l"
  shows "\<exists>t' rest.
     update_progress todos i v now_log now_done now_log2 =
       (Returned (Some t'), update_first i (\<lambda>_. t') todos) \<and>
     t_progress t' = Some (max 0 (min 100 v)) \<and>
     0 \<le> max 0 (min 100 v) \<and> max 0 (min 100 v) \<le> 100 \<and>
     t_execution_log t' = Some (l @
        \<lparr> le_timestamp = now_log, le_action = lit ''progress'',
          le_description = [36827, 24230, 26356, 26032, 58, 32] @ str_int old
                             @ lit ''% -> '' @ str_int v @ lit ''%'' \<rparr> # rest) \<and>
     ((t_status t' = COMPLETED \<and> t_progress t' = Some 100 \<and>
       t_completed_at t' = Some (Some now_done)) = (max 0 (min 100 v) = 100)) \<and>
     (max 0 (min 100 v) = 100 \<longrightarrow>
        rest = [\<lparr> le_timestamp = now_log2, le_action = lit ''completed'',
                  le_description = [20219, 21153, 23436, 25104, 58, 32] @ t_content t \<rparr>]) \<and>
     (max 0 (min 100 v) \<noteq> 100 \<longrightarrow>
        rest = [] \<and> t_status t' = t_status t \<and> t_completed_at t' = t_completed_at t)"
proof (cases "100 \<le> v")
  case True
  let ?e1 = "\<lparr> le_timestamp = now_log, le_action = lit ''progress'',
          le_description = [36827, 24230, 26356, 26032, 58, 32] @ str_int old
                             @ lit ''% -> '' @ str_int v @ lit ''%'' \<rparr>"
  let ?e2 = "\<lparr> le_timestamp = now_log2, le_action = lit ''completed'',
                  le_description = [20219, 21153, 23436, 25104, 58, 32] @ t_content t \<rparr>"
  let ?t' = "t\<lparr>t_status := COMPLETED, t_progress := Some 100,
                       t_completed_at := Some (Some now_done),
                       t_execution_log := Some (l @ [?e1, ?e2])\<rparr>"
  have "update_progress todos i v now_log now_done now_log2 =
          (Returned (Some ?t'), update_first i (\<lambda>_. ?t') todos)"
    using update_progress_found [OF found prog log, of v now_log now_done now_log2] True
    by (simp add: Let_def)
  then show ?thesis
    using True by (intro exI [of _ ?t'] exI [of _ "[?e2]"]) simp
next
  case False
  let ?e1 = "\<lparr> le_timestamp = now_log, le_action = lit ''progress'',
          le_description = [36827, 24230, 26356, 26032, 58, 32] @ str_int old
                             @ lit ''% -> '' @ str_int v @ lit ''%'' \<rparr>"
  let ?t' = "t\<lparr>t_progress := Some (max 0 (min 100 v)), t_execution_log := Some (l @ [?e1])\<rparr>"
  have "update_progress todos i v now_log now_done now_log2 =
          (Returned (Some ?t'), update_first i (\<lambda>_. ?t') todos)"
    using update_progress_found [OF found prog log, of v now_log now_done now_log2] False
    by (simp add: Let_def)
  then show ?thesis
    using False by (intro exI [of _ ?t'] exI [of _ "[]"]) auto
qed

theorem update_progress_clamps_and_completes_witness:
  "find_todo demo_two 1 = Some demo_first \<and>
   t_progress demo_first = Some 0 \<and>
   t_execution_log demo_first = Some [] \<and>
   (\<exists>t'. update_progress demo_two 1 150 (lit ''t2'') (lit ''t3'') (lit ''t4'') =
            (Returned (Some t'), update_first 1 (\<lambda>_. t') demo_two) \<and>
         t_progress t' = Some 100 \<and> t_status t' = COMPLETED \<and>
         t_completed_at t' = Some (Some (lit ''t3''))) \<and>
   (\<exists>t'. update_progress demo_two 1 (- 20) (lit ''t2'') (lit ''t3'') (lit ''t4'') =
            (Returned (Some t'), update_first 1 (\<lambda>_. t') demo_two) \<and>
         t_progress t' = Some 0 \<and> t_status t' = PENDING \<and>
         t_completed_at t' = Some None)"
proof -
  have a: "find_todo demo_two 1 = Some demo_first"
    by (simp add: demo_two_def demo_first_def add_def Let_def)
  have b: "t_progress demo_first = Some 0"
    by (simp add: demo_first_def add_def Let_def)
  have c: "t_execution_log demo_first = Some []"
    by (simp add: demo_first_def add_def Let_def)
  have d: "t_status demo_first = PENDING" "t_completed_at demo_first = Some None"
    by (simp_all add: demo_first_def add_def Let_def)
  from update_progress_clamps_and_completes [OF a b c, of 150 "lit ''t2''" "lit ''t3''" "lit ''t4''"]
  have hi: "\<exists>t'. update_progress demo_two 1 150 (lit ''t2'') (lit ''t3'') (lit ''t4'') =
            (Returned (Some t'), update_first 1 (\<lambda>_. t') demo_two) \<and>
         t_progress t' = Some 100 \<and> t_status t' = COMPLETED \<and>
         t_completed_at t' = Some (Some (lit ''t3''))"
    by auto
  from update_progress_clamps_and_completes [OF a b c, of "- 20" "lit ''t2''" "lit ''t3''" "lit ''t4''"]
  have lo: "\<exists>t'. update_progress demo_two 1 (- 20) (lit ''t2'') (lit ''t3'') (lit ''t4'') =
            (Returned (Some t'), update_first 1 (\<lambda>_. t') demo_two) \<and>
         t_progress t' = Some 0 \<and> t_status t' = PENDING \<and>
         t_completed_at t' = Some None"
    using d by auto
  show ?thesis using a b c hi lo by blast
qed

text \<open>
  C4: the parent's progress is meant to be \<open>floor(100 * completed / total)\<close>. The code
  computes \<open>int((completed / total) * 100)\<close> in floating point. With 4 subtasks the two
  agree (50 after two completions, completed with 100 after all four, lemmas
  \<open>four_subtasks_half\<close> and \<open>four_subtasks_all\<close>). With a task broken into 50 subtasks,
  after \<open>complete_subtask\<close> on the first 29 the stored progress is 57, where the floor
  is 58: \<open>29 / 50\<close> rounds to a float just below 0.58, and the product with 100 stays
  below 58.
\<close>

theorem subtask_progress_not_floor:
  "map t_progress (complete_each (demo_broken_down 50) 1 [1 ..< 30]) = [Some 57] \<and>
   (100 * 29) div 50 = (58 :: int)"
proof -
  have "completed_upto 50 29 (complete_each (demo_broken_down 50) 1 [1 ..< Suc 29])"
    by (rule completed_upto_run) simp
  then have "map t_progress (complete_each (demo_broken_down 50) 1 [1 ..< Suc 29]) = [Some 57]"
    by (auto simp: completed_upto_def percent_29_50)
  moreover have "Suc 29 = 30" by simp
  ultimately show ?thesis by (simp del: upt_Suc)
qed

text \<open>
  C10 as stated fails for \<open>start_todo\<close>: its guard runs before any key is read, so on a
  batch-built list that holds an \<open>in_progress\<close> task it returns absent and raises
  nothing.
\<close>

theorem batch_start_todo_counterexample:
  "find_todo demo_batch_active 1 \<noteq> None \<and>
   list_all batch_record demo_batch_active \<and>
   start_todo demo_batch_active 1 (lit ''t1'') (lit ''t2'') = (Returned None, demo_batch_active)"
  by (simp add: demo_batch_active_def update_all_def batch_record_def start_todo_def)

text \<open>
  C10 (amended): every task of a list built by \<open>update_all\<close> carries only \<open>id\<close>,
  \<open>content\<close>, \<open>status\<close> and \<open>priority\<close>. On such a list \<open>update_progress\<close> on an
  existing id raises \<open>KeyError\<close> for \<open>progress\<close> and leaves the list as it was;
  \<open>start_todo\<close> on an existing id returns absent when some task is \<open>in_progress\<close>, and
  otherwise raises \<open>KeyError\<close> for \<open>execution_log\<close>, after it has already written the
  status \<open>in_progress\<close> and the start timestamp. Neither returns a task record.
\<close>

theorem batch_records_not_executable:
  "todos = snd (update_all old todos_data) \<and> find_todo todos i = Some t \<longrightarrow>
     batch_record t \<and>
     update_progress todos i v now_log now_done now_relog = (KeyError (lit ''progress''), todos) \<and>
     (get_active_todos todos \<noteq> [] \<longrightarrow>
        start_todo todos i now_start now_log = (Returned None, todos)) \<and>
     (get_active_todos todos = [] \<longrightarrow>
        start_todo todos i now_start now_log =
          (KeyError (lit ''execution_log''),
           update_first i
             (\<lambda>t. t\<lparr>t_status := IN_PROGRESS, t_started_at := Some (Some now_start)\<rparr>) todos))"
proof (intro impI, elim conjE)
  assume eq: "todos = snd (update_all old todos_data)" and found: "find_todo todos i = Some t"
  have "list_all batch_record todos" using eq by (simp add: update_all_batch)
  with find_todo_in_set [OF found] have b: "batch_record t" by (simp add: list_all_iff)
  then have p: "t_progress t = None" and l: "t_execution_log t = None"
    by (simp_all add: batch_record_def)
  show "batch_record t \<and>
     update_progress todos i v now_log now_done now_relog = (KeyError (lit ''progress''), todos) \<and>
     (get_active_todos todos \<noteq> [] \<longrightarrow>
        start_todo todos i now_start now_log = (Returned None, todos)) \<and>
     (get_active_todos todos = [] \<longrightarrow>
        start_todo todos i now_start now_log =
          (KeyError (lit ''execution_log''),
           update_first i
             (\<lambda>t. t\<lparr>t_status := IN_PROGRESS, t_started_at := Some (Some now_start)\<rparr>) todos))"
    using b update_progress_no_key [OF found p] start_todo_rejected [of todos i now_start now_log]
      start_todo_no_key [OF _ found l, of now_start now_log]
    by simp
qed

theorem batch_records_not_executable_witness:
  "find_todo demo_batch_idle 1 \<noteq> None \<and>
   get_active_todos demo_batch_idle = [] \<and>
   update_progress demo_batch_idle 1 50 (lit ''t2'') (lit ''t3'') (lit ''t4'') =
     (KeyError (lit ''progress''), demo_batch_idle) \<and>
   start_todo demo_batch_idle 1 (lit ''t1'') (lit ''t2'') =
     (KeyError (lit ''execution_log''),
      update_first 1
        (\<lambda>t. t\<lparr>t_status := IN_PROGRESS, t_started_at := Some (Some (lit ''t1''))\<rparr>)
        demo_batch_idle) \<and>
   find_todo demo_batch_active 1 \<noteq> None \<and>
   get_active_todos demo_batch_active \<noteq> [] \<and>
   update_progress demo_batch_active 1 50 (lit ''t2'') (lit ''t3'') (lit ''t4'') =
     (KeyError (lit ''progress''), demo_batch_active) \<and>
   start_todo demo_batch_active 1 (lit ''t1'') (lit ''t2'') = (Returned None, demo_batch_active)"
proof -
  obtain t where t: "find_todo demo_batch_idle 1 = Some t"
    by (simp add: demo_batch_idle_def update_all_def)
  have idle: "get_active_todos demo_batch_idle = []"
    by (simp add: demo_batch_idle_def update_all_def get_active_todos_def
        PENDING_def IN_PROGRESS_def lit_def)
  obtain u where u: "find_todo demo_batch_active 1 = Some u"
    by (simp add: demo_batch_active_def update_all_def)
  have busy: "get_active_todos demo_batch_active \<noteq> []"
    by (simp add: demo_batch_active_def update_all_def get_active_todos_def)
  from batch_records_not_executable [where todos = demo_batch_idle and old = "[]"
      and todos_data = "[\<lparr> d_content = Some (lit ''a''), d_status = None, d_priority = None \<rparr>]"
      and i = 1 and t = t and v = 50 and now_log = "lit ''t2''" and now_done = "lit ''t3''"
      and now_relog = "lit ''t4''" and now_start = "lit ''t1''"]
  have a: "update_progress demo_batch_idle 1 50 (lit ''t2'') (lit ''t3'') (lit ''t4'') =
     (KeyError (lit ''progress''), demo_batch_idle) \<and>
   start_todo demo_batch_idle 1 (lit ''t1'') (lit ''t2'') =
     (KeyError (lit ''execution_log''),
      update_first 1
        (\<lambda>t. t\<lparr>t_status := IN_PROGRESS, t_started_at := Some (Some (lit ''t1''))\<rparr>)
        demo_batch_idle)"
    using t idle by (simp add: demo_batch_idle_def)
  from batch_records_not_executable [where todos = demo_batch_active and old = "[]"
      and todos_data = "[\<lparr> d_content = Some (lit ''a''), d_status = Some IN_PROGRESS,
                           d_priority = None \<rparr>]"
      and i = 1 and t = u and v = 50 and now_log = "lit ''t2''" and now_done = "lit ''t3''"
      and now_relog = "lit ''t4''" and now_start = "lit ''t1''"]
  have b: "update_progress demo_batch_active 1 50 (lit ''t2'') (lit ''t3'') (lit ''t4'') =
     (KeyError (lit ''progress''), demo_batch_active) \<and>
   start_todo demo_batch_active 1 (lit ''t1'') (lit ''t2'') = (Returned None, demo_batch_active)"
    using u busy by (simp add: demo_batch_active_def)
  show ?thesis using a b t u idle busy by simp
qed

section \<open>Properties of the stream function detector\<close>

lemma py_find_Some_sublist: "py_find sub s = Some k \<Longrightarrow> sublist sub s"
proof (induction s arbitrary: k)
  case Nil
  then show ?case by (simp split: if_splits)
next
  case (Cons c cs)
  show ?case
  proof (cases "take (length sub) (c # cs) = sub")
    case True
    then have "c # cs = sub @ drop (length sub) (c # cs)"
      by (metis append_take_drop_id)
    then have "prefix sub (c # cs)" by (metis prefixI)
    then show ?thesis by (rule prefix_imp_sublist)
  next
    case False
    with Cons.prems obtain k' where "py_find sub cs = Some k'" by auto
    then have "sublist sub cs" by (rule Cons.IH)
    then show ?thesis by (simp add: sublist_Cons_right)
  qed
qed

lemma sublist_py_find: "sublist sub s \<Longrightarrow> py_find sub s \<noteq> None"
proof (induction s)
  case Nil
  then show ?case by simp
next
  case (Cons c cs)
  show ?case
  proof (cases "take (length sub) (c # cs) = sub")
    case True
    then show ?thesis by simp
  next
    case False
    then have "\<not> prefix sub (c # cs)"
      by (auto simp: prefix_def)
    with Cons.prems have "sublist sub cs"
      by (simp add: sublist_Cons_right)
    with Cons.IH False show ?thesis by simp
  qed
qed

lemma py_in_sublist: "py_in sub s = sublist sub s"
  using py_find_Some_sublist sublist_py_find by (auto simp: py_in_def)

text \<open>While no opening tag has been seen, a chunk that does not complete one is passed on.\<close>

lemma feed_chunk_quiet:
  assumes "\<not> start_tag_found d" and "\<not> sublist OPEN_TAG (buffer d @ chunk)"
  shows "fst (feed_chunk d chunk) = (False, None, chunk)"
    and "\<not> start_tag_found (snd (feed_chunk d chunk))"
    and "length (buffer (snd (feed_chunk d chunk))) \<le> 20"
    and "suffix (buffer (snd (feed_chunk d chunk))) (buffer d @ chunk)"
proof -
  let ?b = "buffer d @ chunk"
  have r: "feed_chunk d chunk =
      ((False, None, chunk),
       (if 20 < length ?b then d\<lparr>buffer := drop (length ?b - 20) ?b\<rparr>
        else d\<lparr>buffer := ?b\<rparr>))"
    using assms by (simp add: feed_chunk_def Let_def py_in_sublist del: drop_append)
  show "fst (feed_chunk d chunk) = (False, None, chunk)" by (simp add: r)
  show "\<not> start_tag_found (snd (feed_chunk d chunk))" using assms(1) by (simp add: r)
  show "length (buffer (snd (feed_chunk d chunk))) \<le> 20" by (simp add: r del: drop_append)
  show "suffix (buffer (snd (feed_chunk d chunk))) (buffer d @ chunk)"
    by (simp add: r suffix_drop del: drop_append)
qed

lemma not_sublist_suffix_append:
  assumes "\<not> sublist t (b @ rest)" and "suffix b' b"
  shows "\<not> sublist t (b' @ rest)"
proof
  assume "sublist t (b' @ rest)"
  moreover from assms(2) have "suffix (b' @ rest) (b @ rest)"
    by (auto simp: suffix_def)
  ultimately have "sublist t (b @ rest)"
    by (meson suffix_imp_sublist sublist_order.order_trans)
  with assms(1) show False by simp
qed

lemma feed_all_quiet:
  assumes "\<not> start_tag_found d" and "length (buffer d) \<le> 20"
    and "\<not> sublist OPEN_TAG (buffer d @ concat chunks)"
  shows "\<forall>r \<in> set (feed_all d chunks).
           \<not> fst (fst r) \<and> fst (snd (fst r)) = None \<and> length (buffer (snd r)) \<le> 20"
  using assms
proof (induction chunks arbitrary: d)
  case Nil
  then show ?case by simp
next
  case (Cons chunk chunks)
  have ns: "\<not> sublist OPEN_TAG (buffer d @ chunk)"
  proof
    assume "sublist OPEN_TAG (buffer d @ chunk)"
    then have "sublist OPEN_TAG ((buffer d @ chunk) @ concat chunks)"
      by (meson sublist_append_rightI sublist_order.order_trans)
    with Cons.prems(3) show False by simp
  qed
  let ?r = "feed_chunk d chunk"
  note q = feed_chunk_quiet [OF Cons.prems(1) ns]
  have "\<not> sublist OPEN_TAG (buffer (snd ?r) @ concat chunks)"
    using not_sublist_suffix_append [OF _ q(4), of OPEN_TAG "concat chunks"] Cons.prems(3)
    by simp
  from Cons.IH [OF q(2) q(3) this] q(1) q(3) show ?case
    by (simp add: Let_def)
qed

lemmas detector_eval = feed_chunk_def check_end_tag_def search_function_block_def py_in_def
  OPEN_TAG_def CLOSE_TAG_def FUNCTION_HINT_def lit_def reset_def Let_def

lemma demo_feed:
  "map fst (feed_all reset [demo_chunk1, demo_chunk2, demo_chunk3]) =
     [(False, None, demo_chunk1), (False, None, FUNCTION_HINT), (True, Some demo_block, [])]"
  by (simp add: detector_eval demo_chunk1_def demo_chunk2_def demo_chunk3_def demo_block_def)

lemma demo_plain_no_tag: "\<not> py_in OPEN_TAG (concat demo_plain)"
  by (simp add: demo_plain_def py_in_def OPEN_TAG_def lit_def)

text \<open>
  C5: fed the three chunks \<open>hello <func\<close>, \<open>tion_calls><invoke\<close> and
  \<open> name="x"></invoke></function_calls> world\<close> in order, a fresh detector passes the
  first chunk on, shows the hint for the second, and on the third reports a stop whose
  extracted block is the whole span from \<open><function_calls>\<close> to \<open></function_calls>\<close>.
  For every chunk sequence whose text contains no opening tag, no report is a stop, no
  report carries a block, and after every chunk the buffer holds at most 20 characters.
\<close>

theorem detector_split_tag_and_plain_text:
  "map fst (feed_all reset [demo_chunk1, demo_chunk2, demo_chunk3]) =
     [(False, None, demo_chunk1), (False, None, FUNCTION_HINT), (True, Some demo_block, [])] \<and>
   (\<not> py_in OPEN_TAG (concat chunks) \<longrightarrow>
      (\<forall>r \<in> set (feed_all reset chunks).
         \<not> fst (fst r) \<and> fst (snd (fst r)) = None \<and> length (buffer (snd r)) \<le> 20))"
proof -
  have "\<not> py_in OPEN_TAG (concat chunks) \<longrightarrow>
      (\<forall>r \<in> set (feed_all reset chunks).
         \<not> fst (fst r) \<and> fst (snd (fst r)) = None \<and> length (buffer (snd r)) \<le> 20)"
  proof
    assume "\<not> py_in OPEN_TAG (concat chunks)"
    then have "\<not> sublist OPEN_TAG (buffer reset @ concat chunks)"
      by (simp add: py_in_sublist reset_def)
    moreover have "\<not> start_tag_found reset" "length (buffer reset) \<le> 20"
      by (simp_all add: reset_def)
    ultimately show "\<forall>r \<in> set (feed_all reset chunks).
         \<not> fst (fst r) \<and> fst (snd (fst r)) = None \<and> length (buffer (snd r)) \<le> 20"
      by (intro feed_all_quiet)
  qed
  with demo_feed show ?thesis by simp
qed

theorem detector_split_tag_and_plain_text_witness:
  "\<not> py_in OPEN_TAG (concat demo_plain) \<and>
   list_all (\<lambda>r. \<not> fst (fst r) \<and> fst (snd (fst r)) = None \<and> length (buffer (snd r)) \<le> 20)
     (feed_all reset demo_plain) \<and>
   map (\<lambda>r. length (buffer (snd r))) (feed_all reset demo_plain) = [7, 20, 20]"
proof -
  have "map (\<lambda>r. length (buffer (snd r))) (feed_all reset demo_plain) = [7, 20, 20]"
    by (simp add: demo_plain_def detector_eval)
  with demo_plain_no_tag detector_split_tag_and_plain_text [of demo_plain]
  show ?thesis by (simp add: list_all_iff)
qed

section \<open>Properties of the function registry\<close>

lemma not_found_text: "py_in (lit ''not found'') (lit ''Function '' @ [39] @ name @ [39] @ lit '' not found'')"
proof -
  have "lit '' not found'' = [32] @ lit ''not found''" by (simp add: lit_def)
  then have "lit ''Function '' @ [39] @ name @ [39] @ lit '' not found'' =
        (lit ''Function '' @ [39] @ name @ [39] @ [32]) @ lit ''not found''"
    by simp
  then show ?thesis
    unfolding py_in_sublist by (metis sublist_append_leftI)
qed

text \<open>
  A keyword argument named \<open>name\<close> or \<open>self\<close> collides with the parameters of \<open>call\<close>:
  \<open>TypeError\<close> is raised while the arguments are bound, whatever the table holds, and no
  handler runs. \<open>parse_and_execute\<close> passes the parameter names of the model's XML as
  keywords, so a block with \<open><parameter name="name">\<close> reaches this.
\<close>

lemma call_keyword_collision:
  "lit ''name'' \<in> set (map fst kwargs) \<or> lit ''self'' \<in> set (map fst kwargs) \<Longrightarrow>
     call str_of registered name kwargs s = (CallTypeError, s)"
  by (simp add: call_def)

lemma call_keyword_collision_demo:
  "call demo_str demo_functions (lit ''greet'') [(lit ''name'', lit ''Bob'')] 0 = (CallTypeError, 0) \<and>
   call demo_str demo_functions (lit ''nope'') [(lit ''self'', lit ''x'')] 0 = (CallTypeError, 0)"
  by (simp add: call_keyword_collision)

text \<open>
  C7, where the claim fails: a handler that raises outside \<open>Exception\<close> (here one that
  calls \<open>sys.exit()\<close>) gives no result at all, \<open>except Exception\<close> lets it pass; and a
  handler that returns an object whose \<open>__str__\<close> raises gives a failure carrying that
  error, not a success, because \<open>str(result)\<close> is evaluated inside the \<open>try\<close>.
\<close>

theorem call_not_always_a_result:
  "call demo_str demo_functions (lit ''quit'') [] 0 = (CallPropagates, 0) \<and>
   call demo_str demo_functions (lit ''odd'') [] 0 =
     (CallResult
        \<lparr> success = False, content = [], function_name = lit ''odd'', parameters = Some [],
          error = lit ''no text'', needs_confirmation = False \<rparr>, 0)"
proof -
  have quit: "demo_functions (lit ''quit'') = Some (\<lambda>_ s. (RaisesBase, s))"
    by (simp add: demo_functions_def lit_def)
  have odd: "demo_functions (lit ''odd'') = Some (\<lambda>_ s. (Returns (Other (- 1)), s))"
    by (simp add: demo_functions_def lit_def)
  show ?thesis
    by (simp add: call_def quit odd py_str_def demo_str_def)
qed

text \<open>
  C7 as it holds: for every table of registered functions and every call whose keyword
  arguments bind (none is named \<open>name\<close> or \<open>self\<close>). An unregistered name gives a failure
  whose error text contains \<open>not found\<close>. A handler that raises an \<open>Exception\<close> gives a
  failure carrying the exception's text; what it raises outside \<open>Exception\<close> passes
  through \<open>call\<close>. A handler that returns a string containing the confirmation phrase
  gives \<open>success = False\<close>, \<open>needs_confirmation = True\<close> and the returned text as content.
  Every other return gives a success whose content is \<open>str\<close> of the returned value when
  \<open>str\<close> returns, a failure carrying the error's text when \<open>str\<close> raises an \<open>Exception\<close>,
  and passes on what \<open>str\<close> raises outside \<open>Exception\<close>. The handler's effect on the state
  is kept in every case.
\<close>

theorem call_outcomes_when_bound:
  "lit ''name'' \<notin> set (map fst kwargs) \<and> lit ''self'' \<notin> set (map fst kwargs) \<longrightarrow>
   (registered name = None \<longrightarrow>
      call str_of registered name kwargs s =
        (CallResult
           \<lparr> success = False, content = [], function_name = name, parameters = None,
             error = lit ''Function '' @ [39] @ name @ [39] @ lit '' not found'',
             needs_confirmation = False \<rparr>, s) \<and>
      py_in (lit ''not found'') (lit ''Function '' @ [39] @ name @ [39] @ lit '' not found'')) \<and>
   (registered name = Some func \<and> func kwargs s = (Raises e, s') \<longrightarrow>
      call str_of registered name kwargs s =
        (CallResult
           \<lparr> success = False, content = [], function_name = name, parameters = Some kwargs,
             error = e, needs_confirmation = False \<rparr>, s')) \<and>
   (registered name = Some func \<and> func kwargs s = (RaisesBase, s') \<longrightarrow>
      call str_of registered name kwargs s = (CallPropagates, s')) \<and>
   (registered name = Some func \<and> func kwargs s = (Returns (Str reply), s') \<and>
    py_in CONFIRM_PHRASE reply \<longrightarrow>
      call str_of registered name kwargs s =
        (CallResult
           \<lparr> success = False, content = reply, function_name = name, parameters = Some kwargs,
             error = [], needs_confirmation = True \<rparr>, s')) \<and>
   (registered name = Some func \<and> func kwargs s = (Returns result, s') \<and>
    \<not> (\<exists>reply. result = Str reply \<and> py_in CONFIRM_PHRASE reply) \<longrightarrow>
      (py_str str_of result = Returns shown \<longrightarrow>
         call str_of registered name kwargs s =
           (CallResult
              \<lparr> success = True, content = shown, function_name = name,
                parameters = Some kwargs, error = [], needs_confirmation = False \<rparr>, s')) \<and>
      (py_str str_of result = Raises e \<longrightarrow>
         call str_of registered name kwargs s =
           (CallResult
              \<lparr> success = False, content = [], function_name = name,
                parameters = Some kwargs, error = e, needs_confirmation = False \<rparr>, s')) \<and>
      (py_str str_of result = RaisesBase \<longrightarrow>
         call str_of registered name kwargs s = (CallPropagates, s')))"
  using not_found_text [of name]
  by (auto simp: call_def Let_def split: pyvalue.splits)

theorem call_outcomes_when_bound_witness:
  "lit ''name'' \<notin> set (map fst [(lit ''to'', lit ''Bob'')]) \<and>
   lit ''self'' \<notin> set (map fst [(lit ''to'', lit ''Bob'')]) \<and>
   demo_functions (lit ''nope'') = None \<and>
   call demo_str demo_functions (lit ''nope'') [(lit ''to'', lit ''Bob'')] 0 =
     (CallResult
        \<lparr> success = False, content = [], function_name = lit ''nope'', parameters = None,
          error = lit ''Function '' @ [39] @ lit ''nope'' @ [39] @ lit '' not found'',
          needs_confirmation = False \<rparr>, 0) \<and>
   py_in (lit ''not found'') (lit ''Function '' @ [39] @ lit ''nope'' @ [39] @ lit '' not found'') \<and>
   call demo_str demo_functions (lit ''fail'') [(lit ''to'', lit ''Bob'')] 0 =
     (CallResult
        \<lparr> success = False, content = [], function_name = lit ''fail'',
          parameters = Some [(lit ''to'', lit ''Bob'')],
          error = lit ''boom'', needs_confirmation = False \<rparr>, 0) \<and>
   call demo_str demo_functions (lit ''quit'') [(lit ''to'', lit ''Bob'')] 0 = (CallPropagates, 0) \<and>
   py_in CONFIRM_PHRASE (lit ''send? '' @ CONFIRM_PHRASE) \<and>
   call demo_str demo_functions (lit ''send'') [(lit ''to'', lit ''Bob'')] 0 =
     (CallResult
        \<lparr> success = False, content = lit ''send? '' @ CONFIRM_PHRASE,
          function_name = lit ''send'', parameters = Some [(lit ''to'', lit ''Bob'')],
          error = [], needs_confirmation = True \<rparr>, 0) \<and>
   call demo_str demo_functions (lit ''count'') [(lit ''to'', lit ''Bob'')] 7 =
     (CallResult
        \<lparr> success = True, content = lit ''7'', function_name = lit ''count'',
          parameters = Some [(lit ''to'', lit ''Bob'')], error = [],
          needs_confirmation = False \<rparr>, 8) \<and>
   \<not> py_in CONFIRM_PHRASE (lit ''hi'') \<and>
   call demo_str demo_functions (lit ''greet'') [(lit ''to'', lit ''Bob'')] 0 =
     (CallResult
        \<lparr> success = True, content = lit ''hi'', function_name = lit ''greet'',
          parameters = Some [(lit ''to'', lit ''Bob'')], error = [],
          needs_confirmation = False \<rparr>, 0) \<and>
   call demo_str demo_functions (lit ''odd'') [(lit ''to'', lit ''Bob'')] 0 =
     (CallResult
        \<lparr> success = False, content = [], function_name = lit ''odd'',
          parameters = Some [(lit ''to'', lit ''Bob'')],
          error = lit ''no text'', needs_confirmation = False \<rparr>, 0)"
proof -
  let ?kw = "[(lit ''to'', lit ''Bob'')]"
  have bound: "lit ''name'' \<notin> set (map fst ?kw) \<and> lit ''self'' \<notin> set (map fst ?kw)"
    by (simp add: lit_def)
  have nope: "demo_functions (lit ''nope'') = None"
    by (simp add: demo_functions_def lit_def)
  have fail: "demo_functions (lit ''fail'') = Some (\<lambda>_ s. (Raises (lit ''boom''), s))"
    by (simp add: demo_functions_def lit_def)
  have quit: "demo_functions (lit ''quit'') = Some (\<lambda>_ s. (RaisesBase, s))"
    by (simp add: demo_functions_def lit_def)
  have send: "demo_functions (lit ''send'') =
      Some (\<lambda>_ s. (Returns (Str (lit ''send? '' @ CONFIRM_PHRASE)), s))"
    by (simp add: demo_functions_def lit_def)
  have count: "demo_functions (lit ''count'') = Some (\<lambda>_ s. (Returns (Other (int s)), Suc s))"
    by (simp add: demo_functions_def lit_def)
  have greet: "demo_functions (lit ''greet'') = Some (\<lambda>_ s. (Returns (Str (lit ''hi'')), s))"
    by (simp add: demo_functions_def lit_def)
  have odd: "demo_functions (lit ''odd'') = Some (\<lambda>_ s. (Returns (Other (- 1)), s))"
    by (simp add: demo_functions_def lit_def)
  have phrase: "py_in CONFIRM_PHRASE (lit ''send? '' @ CONFIRM_PHRASE)"
    by (simp add: py_in_sublist)
  have plain: "\<not> py_in CONFIRM_PHRASE (lit ''hi'')"
    by (simp add: py_in_def CONFIRM_PHRASE_def lit_def)
  have seven: "py_str demo_str (Other 7) = Returns (lit ''7'')"
    by (simp add: py_str_def demo_str_def str_int_def str_nat.simps lit_def)
  have hi: "py_str demo_str (Str (lit ''hi'')) = Returns (lit ''hi'')"
    by (simp add: py_str_def)
  have minus: "py_str demo_str (Other (- 1)) = Raises (lit ''no text'')"
    by (simp add: py_str_def demo_str_def)
  note t = call_outcomes_when_bound
    [where str_of = demo_str and registered = demo_functions and kwargs = ?kw]
  from t [where name = "lit ''nope''" and s = 0] nope bound
  have 0: "call demo_str demo_functions (lit ''nope'') ?kw 0 =
        (CallResult
           \<lparr> success = False, content = [], function_name = lit ''nope'', parameters = None,
             error = lit ''Function '' @ [39] @ lit ''nope'' @ [39] @ lit '' not found'',
             needs_confirmation = False \<rparr>, 0)"
    and 1: "py_in (lit ''not found'')
              (lit ''Function '' @ [39] @ lit ''nope'' @ [39] @ lit '' not found'')"
    by blast+
  from t [where name = "lit ''fail''" and s = 0 and s' = 0 and e = "lit ''boom''"
      and func = "\<lambda>_ s. (Raises (lit ''boom''), s)"] fail bound
  have 2: "call demo_str demo_functions (lit ''fail'') ?kw 0 =
     (CallResult
        \<lparr> success = False, content = [], function_name = lit ''fail'', parameters = Some ?kw,
          error = lit ''boom'', needs_confirmation = False \<rparr>, 0)"
    by simp
  from t [where name = "lit ''quit''" and s = 0 and s' = 0
      and func = "\<lambda>_ s. (RaisesBase, s)"] quit bound
  have 3: "call demo_str demo_functions (lit ''quit'') ?kw 0 = (CallPropagates, 0)"
    by simp
  from t [where name = "lit ''send''" and s = 0 and s' = 0
      and reply = "lit ''send? '' @ CONFIRM_PHRASE"
      and func = "\<lambda>_ s. (Returns (Str (lit ''send? '' @ CONFIRM_PHRASE)), s)"] send phrase bound
  have 4: "call demo_str demo_functions (lit ''send'') ?kw 0 =
     (CallResult
        \<lparr> success = False, content = lit ''send? '' @ CONFIRM_PHRASE,
          function_name = lit ''send'', parameters = Some ?kw,
          error = [], needs_confirmation = True \<rparr>, 0)"
    by simp
  from t [where name = "lit ''count''" and s = 7 and s' = 8 and result = "Other 7"
      and shown = "lit ''7''" and func = "\<lambda>_ s. (Returns (Other (int s)), Suc s)"]
    count seven bound
  have 5: "call demo_str demo_functions (lit ''count'') ?kw 7 =
     (CallResult
        \<lparr> success = True, content = lit ''7'', function_name = lit ''count'',
          parameters = Some ?kw, error = [], needs_confirmation = False \<rparr>, 8)"
    by simp
  from t [where name = "lit ''greet''" and s = 0 and s' = 0 and result = "Str (lit ''hi'')"
      and shown = "lit ''hi''" and func = "\<lambda>_ s. (Returns (Str (lit ''hi'')), s)"]
    greet plain hi bound
  have 6: "call demo_str demo_functions (lit ''greet'') ?kw 0 =
     (CallResult
        \<lparr> success = True, content = lit ''hi'', function_name = lit ''greet'',
          parameters = Some ?kw, error = [], needs_confirmation = False \<rparr>, 0)"
    by simp
  from t [where name = "lit ''odd''" and s = 0 and s' = 0 and result = "Other (- 1)"
      and e = "lit ''no text''" and func = "\<lambda>_ s. (Returns (Other (- 1)), s)"]
    odd minus bound
  have 7: "call demo_str demo_functions (lit ''odd'') ?kw 0 =
     (CallResult
        \<lparr> success = False, content = [], function_name = lit ''odd'',
          parameters = Some ?kw, error = lit ''no text'', needs_confirmation = False \<rparr>, 0)"
    by simp
  show ?thesis using bound nope 0 1 2 3 4 5 6 7 phrase plain by simp
qed

section \<open>Properties of the session manager\<close>

lemma read_write_file: "read_file (write_file path c fs) path = Some c"
  by (induction fs) (auto simp: read_file_def)

lemma save_current_session_document:
  "current_session_id sm = Some sid \<Longrightarrow> sid \<noteq> [] \<Longrightarrow>
     read_file (files (snd (save_current_session sm now_created now_activity today DiskOk)))
         (today, sid) =
       Some (Document \<lparr> session_id = sid, created_at = now_created,
                        last_activity = now_activity, messages = current_context sm \<rparr>)"
  by (simp add: save_current_session_def Let_def read_write_file)

lemma save_current_session_failures:
  assumes "current_session_id sm = Some sid" "sid \<noteq> []"
  shows "save_current_session sm now_created now_activity today MkdirFails = (RaisedOSError, sm)"
    and "save_current_session sm now_created now_activity today OpenFails = (Finished, sm)"
    and "read_file (files (snd (save_current_session sm now_created now_activity today DumpFails)))
           (today, sid) = Some Truncated"
  using assms by (simp_all add: save_current_session_def Let_def read_write_file)

lemma session_001: "lit ''session_'' @ format_03d 1 = lit ''session_001''"
  by (simp add: format_03d_def str_nat.simps lit_def numeral_2_eq_2)

text \<open>
  C9: the saved document should keep the session's creation timestamp. A session created
  at 10:00 has \<open>created_at\<close> 10:00 in its file; after \<open>save_current_session\<close> at 10:05
  the file's \<open>created_at\<close> is 10:05: the method writes a fresh \<open>datetime.now()\<close> into
  \<open>created_at\<close> as it does into \<open>last_activity\<close> (lemma \<open>save_current_session_document\<close>
  for every session). The session id and the message list are written as the claim says.
\<close>

theorem save_restamps_created_at:
  "current_session_id demo_created = Some (lit ''session_001'') \<and>
   read_file (files demo_created) (lit ''2025-08-28'', lit ''session_001'') =
     Some (Document \<lparr> session_id = lit ''session_001'', created_at = lit ''2025-08-28T10:00:00'',
                      last_activity = lit ''2025-08-28T10:00:00'', messages = [] \<rparr>) \<and>
   read_file (files demo_saved) (lit ''2025-08-28'', lit ''session_001'') =
     Some (Document \<lparr> session_id = lit ''session_001'', created_at = lit ''2025-08-28T10:05:00'',
                      last_activity = lit ''2025-08-28T10:05:00'', messages = [] \<rparr>) \<and>
   lit ''2025-08-28T10:05:00'' \<noteq> lit ''2025-08-28T10:00:00''"
proof -
  have c: "demo_created =
      \<lparr> current_session_id = Some (lit ''session_001''), current_context = [],
        last_activity_time = 100,
        files = [((lit ''2025-08-28'', lit ''session_001''),
                  Document \<lparr> session_id = lit ''session_001'',
                             created_at = lit ''2025-08-28T10:00:00'',
                             last_activity = lit ''2025-08-28T10:00:00'', messages = [] \<rparr>)] \<rparr>"
    using session_001
    by (simp add: demo_created_def demo_manager_def create_new_session_def
        generate_session_id_def Let_def)
  have s: "read_file (files demo_saved) (lit ''2025-08-28'', lit ''session_001'') =
     Some (Document \<lparr> session_id = lit ''session_001'', created_at = lit ''2025-08-28T10:05:00'',
                      last_activity = lit ''2025-08-28T10:05:00'', messages = [] \<rparr>)"
    unfolding demo_saved_def
    by (subst save_current_session_document [where sid = "lit ''session_001''"])
      (simp_all add: c lit_def)
  have n: "lit ''2025-08-28T10:05:00'' \<noteq> lit ''2025-08-28T10:00:00''"
    by (simp add: lit_def)
  show ?thesis using s n by (simp add: c read_file_def)
qed

section \<open>Properties of the conversation turn\<close>

lemma process_at_limit:
  "MAX_CONVERSATION_DEPTH \<le> depth \<Longrightarrow>
     process_conversation_turn e depth w = (Reply DEPTH_LIMIT_MESSAGE, w)"
  by (subst process_conversation_turn.simps) simp

lemma get_response_stream_requests:
  "w_requests (snd (snd (get_response_stream e w sp))) = w_requests w @ [(sp, w_context w)]"
  by (simp add: get_response_stream_def Let_def split: prod.splits)

lemma session_add_message_requests [simp]:
  "w_requests (snd (session_add_message e w role msg)) = w_requests w"
  by (simp add: session_add_message_def Let_def)

lemma add_assistant_message_requests [simp]:
  "w_requests (snd (add_assistant_message e w msg)) = w_requests w"
  by (simp add: add_assistant_message_def Let_def split: ending.splits)

lemma run_function_calls_requests [simp]:
  "w_requests (snd (run_function_calls e w msg)) = w_requests w"
  by (simp add: run_function_calls_def Let_def split: option.splits ending.splits)

lemma process_below_limit:
  assumes "\<not> MAX_CONVERSATION_DEPTH \<le> depth"
  shows "process_conversation_turn e depth w =
     (let system_prompt = update_system_prompt e (generate_xml e) (w_handlers w) (w_tick w);
          w1 = w\<lparr> w_context := get_current_context (w_session w) \<rparr>;
          streamed = get_response_stream e w1 system_prompt;
          w2 = snd (snd streamed);
          w3 = w2\<lparr> w_log := w_log w2 @ [LogApiCall AI_MODEL] \<rparr>;
          stored = add_assistant_message e w3 (fst streamed);
          w4 = snd stored;
          ran = run_function_calls e w4 (fst streamed)
      in if fst stored = RaisedOSError then (Raised, w4)
         else if fst (snd streamed)
         then (if fst ran = None then (Raised, snd ran)
               else if fst ran = Some True then (Reply (fst streamed), snd ran)
               else process_conversation_turn e (depth + 1) (snd ran))
         else (Reply (fst streamed), w4))"
  using assms by (subst process_conversation_turn.simps) (simp add: Let_def)

lemma process_outcomes:
  assumes "\<not> MAX_CONVERSATION_DEPTH \<le> depth"
  shows "\<exists>w'. length (w_requests w') = Suc (length (w_requests w)) \<and>
           (snd (process_conversation_turn e depth w) = w' \<or>
            snd (process_conversation_turn e depth w) =
              snd (process_conversation_turn e (depth + 1) w'))"
proof -
  let ?sp = "update_system_prompt e (generate_xml e) (w_handlers w) (w_tick w)"
  let ?w1 = "w\<lparr> w_context := get_current_context (w_session w) \<rparr>"
  let ?st = "get_response_stream e ?w1 ?sp"
  let ?w2 = "snd (snd ?st)"
  let ?w3 = "?w2\<lparr> w_log := w_log ?w2 @ [LogApiCall AI_MODEL] \<rparr>"
  let ?stored = "add_assistant_message e ?w3 (fst ?st)"
  let ?w4 = "snd ?stored"
  let ?ran = "run_function_calls e ?w4 (fst ?st)"
  have r4: "length (w_requests ?w4) = Suc (length (w_requests w))"
    by (simp add: get_response_stream_requests)
  have r5: "length (w_requests (snd ?ran)) = Suc (length (w_requests w))"
    by (simp add: get_response_stream_requests)
  have "snd (process_conversation_turn e depth w) = ?w4 \<or>
      snd (process_conversation_turn e depth w) = snd ?ran \<or>
      snd (process_conversation_turn e depth w) =
        snd (process_conversation_turn e (depth + 1) (snd ?ran))"
    unfolding process_below_limit [OF assms] Let_def by simp
  with r4 r5 show ?thesis by blast
qed

lemma process_requests_grow_aux:
  "nat (MAX_CONVERSATION_DEPTH - depth) = n \<Longrightarrow>
     length (w_requests w) \<le> length (w_requests (snd (process_conversation_turn e depth w)))"
proof (induction n arbitrary: depth w)
  case 0
  then have "MAX_CONVERSATION_DEPTH \<le> depth" by simp
  then show ?case by (simp add: process_at_limit)
next
  case (Suc n)
  then have below: "\<not> MAX_CONVERSATION_DEPTH \<le> depth"
    and next_depth: "nat (MAX_CONVERSATION_DEPTH - (depth + 1)) = n"
    by simp_all
  from process_outcomes [OF below, of w e] obtain w' where
    len: "length (w_requests w') = Suc (length (w_requests w))" and
    out: "snd (process_conversation_turn e depth w) = w' \<or>
          snd (process_conversation_turn e depth w) =
            snd (process_conversation_turn e (depth + 1) w')"
    by blast
  from Suc.IH [OF next_depth, of w'] len out show ?case by auto
qed

lemma process_requests_grow:
  "length (w_requests w) \<le> length (w_requests (snd (process_conversation_turn e depth w)))"
  by (rule process_requests_grow_aux [OF refl])

lemma process_below_limit_requests:
  assumes "depth < MAX_CONVERSATION_DEPTH"
  shows "length (w_requests w) < length (w_requests (snd (process_conversation_turn e depth w)))"
proof -
  from assms have below: "\<not> MAX_CONVERSATION_DEPTH \<le> depth" by simp
  from process_outcomes [OF below, of w e] obtain w' where
    len: "length (w_requests w') = Suc (length (w_requests w))" and
    out: "snd (process_conversation_turn e depth w) = w' \<or>
          snd (process_conversation_turn e depth w) =
            snd (process_conversation_turn e (depth + 1) w')"
    by blast
  from process_requests_grow [of w' e "depth + 1"] len out show ?thesis by auto
qed

text \<open>While the disk takes every write, storing a message ends normally.\<close>

lemma save_current_session_ok:
  "fst (save_current_session sm now_created now_activity today DiskOk) = Finished"
  by (simp add: save_current_session_def Let_def split: option.splits)

lemma session_add_message_ok:
  "disk_at e (w_tick w) = DiskOk \<Longrightarrow> fst (session_add_message e w role msg) = Finished"
  by (simp add: session_add_message_def add_message_def Let_def save_current_session_ok)

lemma add_assistant_message_ok:
  "disk_at e (w_tick w) = DiskOk \<Longrightarrow>
     add_assistant_message e w msg =
       (Finished, (snd (session_add_message e w (lit ''assistant'') msg))
                    \<lparr> w_log := w_log (snd (session_add_message e w (lit ''assistant'') msg)) @
                                 [LogAssistantMessage msg] \<rparr>)"
  by (simp add: add_assistant_message_def Let_def session_add_message_ok)

text \<open>
  C8: the configured maximum depth is 5. At depth 5 or more, whatever the model, the
  handlers, the clock and the disk would do, \<open>process_conversation_turn\<close> returns the
  fixed depth-limit text and leaves the whole state as it was: no request is sent to the
  model and the session is untouched. The outcome does not depend on the environment, so
  running the turn again at that depth gives the same. (Below the limit every turn sends
  at least one request: lemma \<open>process_below_limit_requests\<close>.)
\<close>

theorem depth_limit_ends_turn:
  "MAX_CONVERSATION_DEPTH = 5 \<and>
   (5 \<le> depth \<longrightarrow>
      process_conversation_turn e depth w = (Reply DEPTH_LIMIT_MESSAGE, w) \<and>
      w_requests (snd (process_conversation_turn e depth w)) = w_requests w \<and>
      w_session (snd (process_conversation_turn e depth w)) = w_session w \<and>
      process_conversation_turn e' depth w = process_conversation_turn e depth w)"
  using process_at_limit [of depth e w] process_at_limit [of depth e' w]
  by (simp add: MAX_CONVERSATION_DEPTH_def)

theorem depth_limit_ends_turn_witness:
  "(5 :: int) \<le> 5 \<and>
   process_conversation_turn demo_env 5 demo_world = (Reply DEPTH_LIMIT_MESSAGE, demo_world) \<and>
   w_requests (snd (process_conversation_turn demo_env 5 demo_world)) = [] \<and>
   w_session (snd (process_conversation_turn demo_env 5 demo_world)) = demo_created \<and>
   w_requests demo_world = [] \<and>
   length (w_requests (snd (process_conversation_turn demo_env 4 demo_world))) = 1 \<and>
   fst (process_conversation_turn demo_env 4 demo_world) = Reply (lit ''hello'')"
proof -
  have disk: "\<And>w. disk_at demo_env (w_tick w) = DiskOk"
    by (simp add: demo_env_def)
  have streamed: "\<And>w sp. fst (get_response_stream demo_env w sp) = lit ''hello''"
    "\<And>w sp. fst (snd (get_response_stream demo_env w sp)) = False"
    by (simp_all add: get_response_stream_def demo_env_def Let_def lit_def detector_eval)
  have wr: "w_requests demo_world = []"
    by (simp add: demo_world_def)
  have below: "length (w_requests (snd (process_conversation_turn demo_env 4 demo_world))) = 1 \<and>
      fst (process_conversation_turn demo_env 4 demo_world) = Reply (lit ''hello'')"
    by (simp add: process_below_limit MAX_CONVERSATION_DEPTH_def Let_def streamed
        add_assistant_message_ok disk get_response_stream_requests wr)
  have w: "w_requests demo_world = []" "w_session demo_world = demo_created"
    by (simp_all add: demo_world_def)
  have "(5 :: int) \<le> 5" by simp
  with depth_limit_ends_turn [of 5 demo_env demo_world demo_env]
  have at: "process_conversation_turn demo_env 5 demo_world =
      (Reply DEPTH_LIMIT_MESSAGE, demo_world)"
    by blast
  show ?thesis using below w by (simp add: at)
qed

section \<open>Properties of the smart parameter parser\<close>

lemma float_314: "round_binary64 314 100 = (7070651414971679, 51)"
  by code_simp

lemmas parser_eval = parse_value_def parse_scalar_def py_strip_def py_isspace_def py_lower_def
  py_isdigit_def py_isdigit_char_def py_remove_def py_int_def py_float_def int_plain_def
  float_plain_def plain_numeric_def int_of_digits_def is_ascii_def ascii_digit_def
  ascii_lower_def lit_def Let_def

lemma parse_123: "parse_value lib (Str (lit ''123'')) = Value (PInt 123)"
  by (simp add: parser_eval)

lemma parse_314: "parse_value lib (Str (lit ''3.14'')) = Value (PFloat False (7070651414971679, 51))"
  by (simp add: parser_eval float_314)

lemma parse_TRUE: "parse_value lib (Str (lit ''TRUE'')) = Value (PBool True)"
  by (simp add: parser_eval)

lemma parse_false: "parse_value lib (Str (lit ''false'')) = Value (PBool False)"
  by (simp add: parser_eval)

lemma parse_empty: "parse_value lib (Str []) = Value (PStr [])"
  by (simp add: parser_eval)

lemma parse_object: "json_loads lib json_object_text = Loaded j \<Longrightarrow>
    parse_value lib (Str json_object_text) = Value (PJson j)"
  by (simp add: parser_eval json_object_text_def)

lemma parse_array: "json_loads lib json_array_text = Loaded j \<Longrightarrow>
    parse_value lib (Str json_array_text) = Value (PJson j)"
  by (simp add: parser_eval json_array_text_def)

lemma parse_broken: "json_loads lib json_broken_text = JSONDecodeError \<Longrightarrow>
    parse_value lib (Str json_broken_text) = Value (PStr json_broken_text)"
  by (simp add: parser_eval json_broken_text_def)


lemma parse_True: "parse_value lib (Str (lit ''True'')) = Value (PBool True)"
  by (simp add: parser_eval)

lemma parse_FaLsE: "parse_value lib (Str (lit ''FaLsE'')) = Value (PBool False)"
  by (simp add: parser_eval)

lemma guard_chars:
  assumes "py_isdigit lib (py_remove 46 (py_remove 45 v))"
  shows "v \<noteq> []" and "\<forall>c \<in> set v. c = 45 \<or> c = 46 \<or> py_isdigit_char lib c"
  using assms by (auto simp: py_isdigit_def py_remove_def list_all_iff)

lemma guard_not_json:
  assumes "py_isdigit lib (py_remove 46 (py_remove 45 v))"
  shows "hd v \<noteq> 123" and "hd v \<noteq> 91"
proof -
  from guard_chars [OF assms] have "hd v \<in> set v"
    and k: "\<forall>c \<in> set v. c = 45 \<or> c = 46 \<or> py_isdigit_char lib c" by simp_all
  then have "hd v = 45 \<or> hd v = 46 \<or> py_isdigit_char lib (hd v)" by blast
  then show "hd v \<noteq> 123" and "hd v \<noteq> 91"
    by (auto simp: py_isdigit_char_def is_ascii_def ascii_digit_def)
qed

lemma guard_not_bool:
  assumes "py_isdigit lib (py_remove 46 (py_remove 45 v))"
  shows "py_lower lib v \<noteq> lit ''true''" and "py_lower lib v \<noteq> lit ''false''"
proof -
  from guard_chars [OF assms] have ne: "v \<noteq> []"
    and k: "\<forall>c \<in> set v. c = 45 \<or> c = 46 \<or> py_isdigit_char lib c" by simp_all
  from k have "list_all (\<lambda>c. is_ascii c \<or> isdigit_other lib c) v"
    by (auto simp: list_all_iff py_isdigit_char_def is_ascii_def split: if_splits)
  then have low: "py_lower lib v = map ascii_lower v" by (simp add: py_lower_def)
  from ne k have "hd v = 45 \<or> hd v = 46 \<or> py_isdigit_char lib (hd v)" by simp
  then have h: "ascii_lower (hd v) \<noteq> 116 \<and> ascii_lower (hd v) \<noteq> 102"
    by (auto simp: py_isdigit_char_def is_ascii_def ascii_digit_def ascii_lower_def
        split: if_splits)
  from ne have "hd (map ascii_lower v) = ascii_lower (hd v)" by (simp add: hd_map)
  with h low show "py_lower lib v \<noteq> lit ''true''" and "py_lower lib v \<noteq> lit ''false''"
    by (auto simp: lit_def)
qed

lemma parse_numeric_fallthrough:
  assumes guard: "py_isdigit lib (py_remove 46 (py_remove 45 (py_strip lib s)))"
    and fails: "(46 \<notin> set (py_strip lib s) \<and> py_int lib (py_strip lib s) = None) \<or>
                (46 \<in> set (py_strip lib s) \<and> py_float lib (py_strip lib s) = None)"
  shows "parse_value lib (Str s) = Value (PStr (py_strip lib s))"
proof -
  let ?v = "py_strip lib s"
  have sc: "parse_scalar lib ?v = (PStr ?v :: 'a parsed)"
    using guard fails guard_not_bool [OF guard]
    by (auto simp: parse_scalar_def)
  show ?thesis
    using guard_chars(1) [OF guard] guard_not_json [OF guard] sc
    by (simp add: parse_value_def Let_def)
qed

text \<open>
  C6: for every library in which \<open>json.loads\<close> decodes \<open>{"a": 1}\<close> and \<open>[1,2]\<close> as
  Python's does and rejects \<open>{not json}\<close>: \<open>parse_value\<close> turns \<open>123\<close> into the integer
  123, \<open>3.14\<close> into the float 3.14 (the binary64 nearest to 314/100), \<open>TRUE\<close> and
  \<open>false\<close> in any mix of cases into the booleans, the two JSON texts into the decoded
  object and array, gives \<open>{not json}\<close> back unchanged, and the empty string as the
  empty string. Every string whose trimmed form passes the digit test (all digits once
  \<open>-\<close> and \<open>.\<close> are removed) but is rejected by \<open>int\<close>, or by \<open>float\<close> when it has a
  point, comes back as the trimmed string.
\<close>

theorem parse_value_coercions:
  assumes "json_loads lib json_object_text = Loaded (JObj [(lit ''a'', JInt 1)])"
    and "json_loads lib json_array_text = Loaded (JArr [JInt 1, JInt 2])"
    and "json_loads lib json_broken_text = JSONDecodeError"
  shows "parse_value lib (Str (lit ''123'')) = Value (PInt 123) \<and>
     parse_value lib (Str (lit ''3.14'')) = Value (PFloat False (round_binary64 314 100)) \<and>
     round_binary64 314 100 = (7070651414971679, 51) \<and>
     parse_value lib (Str (lit ''TRUE'')) = Value (PBool True) \<and>
     parse_value lib (Str (lit ''True'')) = Value (PBool True) \<and>
     parse_value lib (Str (lit ''false'')) = Value (PBool False) \<and>
     parse_value lib (Str (lit ''FaLsE'')) = Value (PBool False) \<and>
     parse_value lib (Str json_object_text) = Value (PJson (JObj [(lit ''a'', JInt 1)])) \<and>
     parse_value lib (Str json_array_text) = Value (PJson (JArr [JInt 1, JInt 2])) \<and>
     parse_value lib (Str json_broken_text) = Value (PStr json_broken_text) \<and>
     parse_value lib (Str []) = Value (PStr []) \<and>
     (py_isdigit lib (py_remove 46 (py_remove 45 (py_strip lib s))) \<and>
      ((46 \<notin> set (py_strip lib s) \<and> py_int lib (py_strip lib s) = None) \<or>
       (46 \<in> set (py_strip lib s) \<and> py_float lib (py_strip lib s) = None)) \<longrightarrow>
        parse_value lib (Str s) = Value (PStr (py_strip lib s)))"
proof -
  have f: "parse_value lib (Str (lit ''3.14'')) = Value (PFloat False (round_binary64 314 100))"
    by (simp add: parse_314 float_314)
  have g: "py_isdigit lib (py_remove 46 (py_remove 45 (py_strip lib s))) \<and>
      ((46 \<notin> set (py_strip lib s) \<and> py_int lib (py_strip lib s) = None) \<or>
       (46 \<in> set (py_strip lib s) \<and> py_float lib (py_strip lib s) = None)) \<longrightarrow>
        parse_value lib (Str s) = Value (PStr (py_strip lib s))"
    using parse_numeric_fallthrough [of lib s] by blast
  show ?thesis
    by (intro conjI parse_123 f float_314 parse_TRUE parse_True parse_false parse_FaLsE
        parse_object [OF assms(1)] parse_array [OF assms(2)] parse_broken [OF assms(3)]
        parse_empty g)
qed


theorem parse_value_coercions_witness:
  "json_loads demo_lib json_object_text = Loaded (JObj [(lit ''a'', JInt 1)]) \<and>
   json_loads demo_lib json_array_text = Loaded (JArr [JInt 1, JInt 2]) \<and>
   json_loads demo_lib json_broken_text = JSONDecodeError \<and>
   parse_value demo_lib (Str (lit ''123'') :: unit pyvalue) = Value (PInt 123) \<and>
   parse_value demo_lib (Str json_object_text :: unit pyvalue) =
     Value (PJson (JObj [(lit ''a'', JInt 1)])) \<and>
   parse_value demo_lib (Str json_broken_text :: unit pyvalue) = Value (PStr json_broken_text) \<and>
   py_strip demo_lib (lit '' 1-2 '') = lit ''1-2'' \<and>
   py_isdigit demo_lib (py_remove 46 (py_remove 45 (lit ''1-2''))) \<and>
   46 \<notin> set (lit ''1-2'') \<and>
   py_int demo_lib (lit ''1-2'') = None \<and>
   parse_value demo_lib (Str (lit '' 1-2 '') :: unit pyvalue) = Value (PStr (lit ''1-2'')) \<and>
   py_strip demo_lib (lit ''1.2.3'') = lit ''1.2.3'' \<and>
   py_isdigit demo_lib (py_remove 46 (py_remove 45 (lit ''1.2.3''))) \<and>
   46 \<in> set (lit ''1.2.3'') \<and>
   py_float demo_lib (lit ''1.2.3'') = None \<and>
   parse_value demo_lib (Str (lit ''1.2.3'') :: unit pyvalue) = Value (PStr (lit ''1.2.3''))"
proof -
  have j1: "json_loads demo_lib json_object_text = Loaded (JObj [(lit ''a'', JInt 1)])"
    by (simp add: demo_lib_def)
  have j2: "json_loads demo_lib json_array_text = Loaded (JArr [JInt 1, JInt 2])"
    by (simp add: demo_lib_def json_array_text_def json_object_text_def lit_def)
  have j3: "json_loads demo_lib json_broken_text = JSONDecodeError"
    by (simp add: demo_lib_def json_array_text_def json_object_text_def json_broken_text_def
        lit_def)
  have a1: "py_strip demo_lib (lit '' 1-2 '') = lit ''1-2''"
    by (simp add: py_strip_def py_isspace_def is_ascii_def lit_def)
  have a2: "py_isdigit demo_lib (py_remove 46 (py_remove 45 (lit ''1-2'')))"
    by (simp add: py_isdigit_def py_isdigit_char_def py_remove_def is_ascii_def ascii_digit_def
        lit_def)
  have a3: "46 \<notin> set (lit ''1-2'')" by (simp add: lit_def)
  have a4: "py_int demo_lib (lit ''1-2'') = None"
    by (simp add: py_int_def int_plain_def plain_numeric_def ascii_digit_def lit_def)
  have b1: "py_strip demo_lib (lit ''1.2.3'') = lit ''1.2.3''"
    by (simp add: py_strip_def py_isspace_def is_ascii_def lit_def)
  have b2: "py_isdigit demo_lib (py_remove 46 (py_remove 45 (lit ''1.2.3'')))"
    by (simp add: py_isdigit_def py_isdigit_char_def py_remove_def is_ascii_def ascii_digit_def
        lit_def)
  have b3: "46 \<in> set (lit ''1.2.3'')" by (simp add: lit_def)
  have b4: "py_float demo_lib (lit ''1.2.3'') = None"
    by (simp add: py_float_def float_plain_def plain_numeric_def ascii_digit_def lit_def)
  note t1 = parse_value_coercions [OF j1 j2 j3, of "lit '' 1-2 ''"]
  note t2 = parse_value_coercions [OF j1 j2 j3, of "lit ''1.2.3''"]
  from t1 have c1: "parse_value demo_lib (Str (lit ''123'') :: unit pyvalue) = Value (PInt 123)"
    and c2: "parse_value demo_lib (Str json_object_text :: unit pyvalue) =
               Value (PJson (JObj [(lit ''a'', JInt 1)]))"
    and c3: "parse_value demo_lib (Str json_broken_text :: unit pyvalue) =
               Value (PStr json_broken_text)"
    by blast+
  from t1 have i1: "py_isdigit demo_lib (py_remove 46 (py_remove 45 (py_strip demo_lib (lit '' 1-2 '')))) \<and>
      ((46 \<notin> set (py_strip demo_lib (lit '' 1-2 '')) \<and>
        py_int demo_lib (py_strip demo_lib (lit '' 1-2 '')) = None) \<or>
       (46 \<in> set (py_strip demo_lib (lit '' 1-2 '')) \<and>
        py_float demo_lib (py_strip demo_lib (lit '' 1-2 '')) = None)) \<longrightarrow>
      parse_value demo_lib (Str (lit '' 1-2 '') :: unit pyvalue) =
        Value (PStr (py_strip demo_lib (lit '' 1-2 '')))"
    by blast
  have c4: "parse_value demo_lib (Str (lit '' 1-2 '') :: unit pyvalue) = Value (PStr (lit ''1-2''))"
    using i1 a2 a3 a4 by (simp add: a1)
  from t2 have i2: "py_isdigit demo_lib (py_remove 46 (py_remove 45 (py_strip demo_lib (lit ''1.2.3'')))) \<and>
      ((46 \<notin> set (py_strip demo_lib (lit ''1.2.3'')) \<and>
        py_int demo_lib (py_strip demo_lib (lit ''1.2.3'')) = None) \<or>
       (46 \<in> set (py_strip demo_lib (lit ''1.2.3'')) \<and>
        py_float demo_lib (py_strip demo_lib (lit ''1.2.3'')) = None)) \<longrightarrow>
      parse_value demo_lib (Str (lit ''1.2.3'') :: unit pyvalue) =
        Value (PStr (py_strip demo_lib (lit ''1.2.3'')))"
    by blast
  have c5: "parse_value demo_lib (Str (lit ''1.2.3'') :: unit pyvalue) = Value (PStr (lit ''1.2.3''))"
    using i2 b2 b3 b4 by (simp add: b1)
  show ?thesis
    using j1 j2 j3 a1 a2 a3 a4 b1 b2 b3 b4 c1 c2 c3 c4 c5 by blast
qed

end
